theory Spec2Isabelle
  imports Complex_Main "HOL-Library.AList" "HOL-Library.Sublist"
begin

section \<open>Python values used by the optimiser core\<close>

text \<open>
  Times, speeds and waits are Python floats in the source. They are modelled as exact
  rationals: the theory is about the arithmetic the code performs, not about IEEE
  rounding. Python integers are \<open>int\<close>, strings are \<open>string\<close>, dictionaries are
  association lists in insertion order (Python dictionaries iterate in insertion order),
  and every exception the code can raise is a value of \<open>py_error\<close>.
\<close>

datatype py_error = ValueError | KeyError | ZeroDivisionError | TypeError

type_synonym 'a result = "py_error + 'a"

subsection \<open>\<open>str.split(sep)\<close> with a one-character separator\<close>

fun split_on :: "char \<Rightarrow> string \<Rightarrow> string list" where
  "split_on sep [] = [[]]"
| "split_on sep (c # cs) =
     (if c = sep then [] # split_on sep cs
      else (case split_on sep cs of
              [] \<Rightarrow> [[c]]
            | p # ps \<Rightarrow> (c # p) # ps))"

subsection \<open>\<open>int(s)\<close> on an ASCII string\<close>

definition is_space :: "char \<Rightarrow> bool" where
  "is_space c = (c = CHR '' '' \<or> c = CHR 0x09 \<or> c = CHR 0x0A \<or> c = CHR 0x0B
                 \<or> c = CHR 0x0C \<or> c = CHR 0x0D)"

definition strip :: "string \<Rightarrow> string" where
  "strip s = rev (dropWhile is_space (rev (dropWhile is_space s)))"

definition is_digit :: "char \<Rightarrow> bool" where
  "is_digit c = (48 \<le> (of_char c :: nat) \<and> (of_char c :: nat) \<le> 57)"

definition digit_val :: "char \<Rightarrow> nat" where
  "digit_val c = of_char c - 48"

text \<open>
  The digits of an integer literal: one or more digits, single underscores allowed
  between digits. The accumulator is the value read so far; \<open>prev_digit\<close> says whether
  the previous character was a digit (an underscore must follow and precede a digit).
\<close>

fun read_digits :: "nat \<Rightarrow> bool \<Rightarrow> string \<Rightarrow> nat option" where
  "read_digits acc prev_digit [] = (if prev_digit then Some acc else None)"
| "read_digits acc prev_digit (c # cs) =
     (if is_digit c then read_digits (acc * 10 + digit_val c) True cs
      else if c = CHR ''_'' \<and> prev_digit then read_digits acc False cs
      else None)"

definition py_int :: "string \<Rightarrow> int result" where
  "py_int s =
     (case strip s of
        [] \<Rightarrow> Inl ValueError
      | c # cs \<Rightarrow>
          if c = CHR ''-'' then
            (case read_digits 0 False cs of None \<Rightarrow> Inl ValueError | Some n \<Rightarrow> Inr (- int n))
          else if c = CHR ''+'' then
            (case read_digits 0 False cs of None \<Rightarrow> Inl ValueError | Some n \<Rightarrow> Inr (int n))
          else
            (case read_digits 0 False (c # cs) of None \<Rightarrow> Inl ValueError | Some n \<Rightarrow> Inr (int n)))"

section \<open>The multi-server queue simulator (queue\_simulation.py)\<close>

subsection \<open>\<open>min(range(n), key=...)\<close> and \<open>max(list)\<close>\<close>

text \<open>
  Python's \<open>min(iterable, key=k)\<close> keeps the first element and replaces it only by a
  later element with a strictly smaller key; on an empty iterable it raises ValueError.
\<close>

fun min_by_key :: "('a \<Rightarrow> rat) \<Rightarrow> 'a \<Rightarrow> 'a list \<Rightarrow> 'a" where
  "min_by_key k best [] = best"
| "min_by_key k best (x # xs) = min_by_key k (if k x < k best then x else best) xs"

definition py_min_key :: "('a \<Rightarrow> rat) \<Rightarrow> 'a list \<Rightarrow> 'a result" where
  "py_min_key k xs = (case xs of [] \<Rightarrow> Inl ValueError | x # rest \<Rightarrow> Inr (min_by_key k x rest))"

fun max_from :: "rat \<Rightarrow> rat list \<Rightarrow> rat" where
  "max_from best [] = best"
| "max_from best (x # xs) = max_from (if best < x then x else best) xs"

definition py_max :: "rat list \<Rightarrow> rat result" where
  "py_max xs = (case xs of [] \<Rightarrow> Inl ValueError | x # rest \<Rightarrow> Inr (max_from x rest))"

subsection \<open>\<open>multi_server_queue\<close>\<close>

text \<open>
  One iteration of the loop over the arrivals: the state is the list of server free
  times and the accumulated wait.
\<close>

definition serve :: "rat list \<times> rat \<Rightarrow> rat \<times> rat \<Rightarrow> (rat list \<times> rat) result" where
  "serve st ev =
     (case st of (server_free_times, total_wait) \<Rightarrow>
      case ev of (arrival_time, service_time) \<Rightarrow>
      case py_min_key (\<lambda>i. server_free_times ! i) [0 ..< length server_free_times] of
        Inl e \<Rightarrow> Inl e
      | Inr idx \<Rightarrow>
          let wait = max 0 (server_free_times ! idx - arrival_time);
              start_service = arrival_time + wait
          in Inr (server_free_times[idx := start_service + service_time], total_wait + wait))"

fun serve_all :: "rat list \<times> rat \<Rightarrow> (rat \<times> rat) list \<Rightarrow> (rat list \<times> rat) result" where
  "serve_all st [] = Inr st"
| "serve_all st (ev # evs) =
     (case serve st ev of Inl e \<Rightarrow> Inl e | Inr st' \<Rightarrow> serve_all st' evs)"

definition multi_server_queue :: "(rat \<times> rat) list \<Rightarrow> int \<Rightarrow> (rat \<times> rat) result" where
  "multi_server_queue arrivals num_servers =
     (if arrivals = [] then Inr (0, 0)
      else
        case serve_all (replicate (nat (max 1 num_servers)) 0, 0) arrivals of
          Inl e \<Rightarrow> Inl e
        | Inr (server_free_times, total_wait) \<Rightarrow>
            (case py_max server_free_times of
               Inl e \<Rightarrow> Inl e
             | Inr end_time \<Rightarrow>
                 Inr ((total_wait / of_nat (length arrivals)) * 60, end_time)))"

section \<open>The location hierarchy (config.py)\<close>

text \<open>
  \<open>FENI_DUMP_POINTS\<close> maps each macro zone to its configuration; \<open>sub_points\<close> maps a
  sub-point name to its line range and priority. The field \<open>lines\<close> is optional because
  the source reads it both with \<open>.get('lines', '')\<close> and with \<open>['lines']\<close>.
\<close>

record sub_point =
  lines :: "string option"
  priority :: int

record zone_cfg =
  location_code :: string
  distance_base :: string
  sub_points :: "(string \<times> sub_point) list"

type_synonym hierarchy = "(string \<times> zone_cfg) list"

definition FENI_KM_0_sub_points :: "(string \<times> sub_point) list" where
  "FENI_KM_0_sub_points =
    [
     (''FENI A (LINE 1-2)'', \<lparr>lines = Some ''1-2'', priority = 1\<rparr>),
     (''FENI A (LINE 3-4)'', \<lparr>lines = Some ''3-4'', priority = 1\<rparr>),
     (''FENI B (LINE 5-6)'', \<lparr>lines = Some ''5-6'', priority = 2\<rparr>),
     (''FENI B (LINE 7-8)'', \<lparr>lines = Some ''7-8'', priority = 2\<rparr>),
     (''FENI C (LINE 9-10)'', \<lparr>lines = Some ''9-10'', priority = 3\<rparr>),
     (''FENI C (LINE 11-12)'', \<lparr>lines = Some ''11-12'', priority = 3\<rparr>),
     (''FENI D (LINE 13-14)'', \<lparr>lines = Some ''13-14'', priority = 4\<rparr>),
     (''FENI D (LINE 15-16)'', \<lparr>lines = Some ''15-16'', priority = 4\<rparr>),
     (''FENI E (LINE 17-18)'', \<lparr>lines = Some ''17-18'', priority = 5\<rparr>),
     (''FENI E (LINE 19-20)'', \<lparr>lines = Some ''19-20'', priority = 5\<rparr>),
     (''FENI F1 (LINE 21-22)'', \<lparr>lines = Some ''21-22'', priority = 6\<rparr>),
     (''FENI F2 (LINE 23-24)'', \<lparr>lines = Some ''23-24'', priority = 6\<rparr>),
     (''FENI G (LINE 25-26)'', \<lparr>lines = Some ''25-26'', priority = 7\<rparr>),
     (''FENI G (LINE 27-28)'', \<lparr>lines = Some ''27-28'', priority = 7\<rparr>),
     (''FENI H (LINE 29-30)'', \<lparr>lines = Some ''29-30'', priority = 8\<rparr>),
     (''FENI H (LINE 31-32)'', \<lparr>lines = Some ''31-32'', priority = 8\<rparr>),
     (''FENI K (LINE 33-34)'', \<lparr>lines = Some ''33-34'', priority = 9\<rparr>),
     (''FENI K (LINE 35-36)'', \<lparr>lines = Some ''35-36'', priority = 9\<rparr>),
     (''FENI L1 (LINE 37-38)'', \<lparr>lines = Some ''37-38'', priority = 10\<rparr>),
     (''FENI L2 (LINE 39-40)'', \<lparr>lines = Some ''39-40'', priority = 10\<rparr>),
     (''FENI L3 (LINE 41-42)'', \<lparr>lines = Some ''41-42'', priority = 10\<rparr>),
     (''FENI M (LINE 43-44)'', \<lparr>lines = Some ''43-44'', priority = 11\<rparr>),
     (''FENI M (LINE 45-46)'', \<lparr>lines = Some ''45-46'', priority = 11\<rparr>),
     (''FENI O1 (LINE 47-48)'', \<lparr>lines = Some ''47-48'', priority = 12\<rparr>),
     (''FENI O2 (LINE 49-50)'', \<lparr>lines = Some ''49-50'', priority = 12\<rparr>),
     (''FENI Q (LINE 51-52)'', \<lparr>lines = Some ''51-52'', priority = 13\<rparr>),
     (''FENI Q (LINE 53-54)'', \<lparr>lines = Some ''53-54'', priority = 13\<rparr>),
     (''FENI R (LINE 55-56)'', \<lparr>lines = Some ''55-56'', priority = 14\<rparr>),
     (''FENI S (LINE 57-58)'', \<lparr>lines = Some ''57-58'', priority = 15\<rparr>),
     (''FENI S (LINE 59-60)'', \<lparr>lines = Some ''59-60'', priority = 15\<rparr>)
    ]"

definition FENI_KM_15_sub_points :: "(string \<times> sub_point) list" where
  "FENI_KM_15_sub_points =
    [
     (''FENI U1 (LINE 65-66)'', \<lparr>lines = Some ''65-66'', priority = 1\<rparr>),
     (''FENI U2 (LINE 67-68)'', \<lparr>lines = Some ''67-68'', priority = 2\<rparr>),
     (''FENI W (LINE 69-70)'', \<lparr>lines = Some ''69-70'', priority = 3\<rparr>),
     (''FENI W (LINE 71-72)'', \<lparr>lines = Some ''71-72'', priority = 4\<rparr>)
    ]"

definition FENI_DUMP_POINTS :: hierarchy where
  "FENI_DUMP_POINTS =
    [(''FENI KM 0'',
        \<lparr>location_code = ''FENI KM0'', distance_base = ''FENI KM0'',
         sub_points = FENI_KM_0_sub_points\<rparr>),
     (''FENI KM 15'',
        \<lparr>location_code = ''FENI KM15'', distance_base = ''FENI KM15'',
         sub_points = FENI_KM_15_sub_points\<rparr>)]"

text \<open>The module-level dictionary is a parameter \<open>h\<close> of every function that reads it.\<close>

fun get_main_feni_from_sub_point :: "hierarchy \<Rightarrow> string \<Rightarrow> string option" where
  "get_main_feni_from_sub_point [] sub_point_name = None"
| "get_main_feni_from_sub_point ((main_feni, config) # rest) sub_point_name =
     (if sub_point_name \<in> fst ` set (sub_points config) then Some main_feni
      else get_main_feni_from_sub_point rest sub_point_name)"

subsection \<open>\<open>get_server_count\<close> (queue\_simulation.py)\<close>

text \<open>
  The body of both \<open>try\<close> blocks: split the range at \<open>-\<close> and, when there are exactly two
  parts, convert both. \<open>Inr None\<close> is the case \<open>len(parts) != 2\<close>, \<open>Inl e\<close> an exception of
  \<open>int\<close>.
\<close>

definition parse_line_range :: "string \<Rightarrow> (int option) result" where
  "parse_line_range line_str =
     (case split_on (CHR ''-'') line_str of
        [p0, p1] \<Rightarrow>
          (case py_int p0 of
             Inl e \<Rightarrow> Inl e
           | Inr start \<Rightarrow>
               (case py_int p1 of
                  Inl e \<Rightarrow> Inl e
                | Inr endv \<Rightarrow> Inr (Some (max 1 (endv - start + 1)))))
      | _ \<Rightarrow> Inr None)"

definition line_str_of :: "sub_point \<Rightarrow> string" where
  "line_str_of sp_cfg = (case lines sp_cfg of None \<Rightarrow> [] | Some l \<Rightarrow> l)"

text \<open>The first loop: the explicit sub-point definitions. \<open>None\<close> means the loop ended
  without returning.\<close>

fun explicit_server_count :: "hierarchy \<Rightarrow> string \<Rightarrow> int option" where
  "explicit_server_count [] subpoint_name = None"
| "explicit_server_count ((main_feni, cfg) # rest) subpoint_name =
     (case map_of (sub_points cfg) subpoint_name of
        Some sp_cfg \<Rightarrow>
          (case parse_line_range (line_str_of sp_cfg) of
             Inr (Some n) \<Rightarrow> Some n
           | _ \<Rightarrow> Some 1)
      | None \<Rightarrow> explicit_server_count rest subpoint_name)"

text \<open>The second loop: the sum over the sub-points of one zone.\<close>

fun sum_zone_lines :: "int \<Rightarrow> (string \<times> sub_point) list \<Rightarrow> int" where
  "sum_zone_lines tot [] = tot"
| "sum_zone_lines tot ((sp, sp_cfg) # rest) =
     sum_zone_lines
       (case parse_line_range (line_str_of sp_cfg) of
          Inr (Some n) \<Rightarrow> tot + n
        | _ \<Rightarrow> tot + 1) rest"

definition get_server_count :: "hierarchy \<Rightarrow> string \<Rightarrow> int" where
  "get_server_count h subpoint_name =
     (if subpoint_name = [] then 2
      else
        case explicit_server_count h subpoint_name of
          Some n \<Rightarrow> n
        | None \<Rightarrow>
            (case get_main_feni_from_sub_point h subpoint_name of
               None \<Rightarrow> 2
             | Some main_feni \<Rightarrow>
                 (case (if main_feni = [] then None else map_of h main_feni) of
                    None \<Rightarrow> 2
                  | Some zone \<Rightarrow> max 1 (sum_zone_lines 0 (sub_points zone)))))"

subsection \<open>\<open>_num_servers_for\<close> (local function of \<open>simulate_wait_times\<close>, departure\_optimizer.py)\<close>

text \<open>
  \<open>lo, hi = map(int, s.split('-'))\<close>: the conversion of a part that is not an integer
  raises ValueError, and so does unpacking anything but two values.
\<close>

definition unpack_lo_hi :: "sub_point \<Rightarrow> (int \<times> int) result" where
  "unpack_lo_hi sp_cfg =
     (case lines sp_cfg of
        None \<Rightarrow> Inl KeyError
      | Some l \<Rightarrow>
          (case split_on (CHR ''-'') l of
             [p0, p1] \<Rightarrow>
               (case py_int p0 of
                  Inl e \<Rightarrow> Inl e
                | Inr lo \<Rightarrow> (case py_int p1 of Inl e \<Rightarrow> Inl e | Inr hi \<Rightarrow> Inr (lo, hi)))
           | _ \<Rightarrow> Inl ValueError))"

fun sum_all_lines :: "int \<Rightarrow> sub_point list \<Rightarrow> int result" where
  "sum_all_lines tot [] = Inr tot"
| "sum_all_lines tot (sp_cfg # rest) =
     (case unpack_lo_hi sp_cfg of
        Inl e \<Rightarrow> Inl e
      | Inr (lo, hi) \<Rightarrow> sum_all_lines (tot + max 1 (hi - lo + 1)) rest)"

definition num_servers_for :: "hierarchy \<Rightarrow> string \<Rightarrow> int result" where
  "num_servers_for h sub_point =
     (case get_main_feni_from_sub_point h sub_point of
        None \<Rightarrow> Inr 1
      | Some main \<Rightarrow>
          (case (if main = [] then None else map_of h main) of
             None \<Rightarrow> Inr 1
           | Some cfg \<Rightarrow>
               (case map_of (sub_points cfg) sub_point of
                  Some sp_cfg \<Rightarrow>
                    (case unpack_lo_hi sp_cfg of
                       Inl e \<Rightarrow> Inl e
                     | Inr (lo, hi) \<Rightarrow> Inr (max 1 (hi - lo + 1)))
                | None \<Rightarrow>
                    (case sum_all_lines 0 (map snd (sub_points cfg)) of
                       Inl e \<Rightarrow> Inl e
                     | Inr tot \<Rightarrow> Inr (max 1 tot)))))"

section \<open>Route timing (departure\_optimizer.py)\<close>

text \<open>
  A cell of the timing table, as \<open>compute_route_times\<close> reads it: the column may be
  absent from the row, hold NaN, hold a number, or hold something \<open>float\<close> rejects.
\<close>

datatype cell = Missing | NaN | Num rat | NotNumeric

record timing_row =
  travel_parking_loading_h :: cell
  waiting_for_loading_h :: cell
  spoting_loading :: cell
  loading_h :: cell
  loaded_travel_h :: cell
  dumping_h :: cell
  dumping_spoting_h :: cell

text \<open>
  \<open>RouteTimeLookup.get_row\<close> is a pure function of the three location names; the
  lookup object is that function, and \<open>None\<close> is the Python \<open>None\<close> passed for it.
\<close>

type_synonym route_time_lookup = "string \<Rightarrow> string \<Rightarrow> string \<Rightarrow> timing_row option"

definition REFERENCE_SPEED :: rat where
  "REFERENCE_SPEED = 25"

definition py_div :: "rat \<Rightarrow> rat \<Rightarrow> rat result" where
  "py_div a b = (if b = 0 then Inl ZeroDivisionError else Inr (a / b))"

text \<open>\<open>row[col]\<close>: KeyError when the column is absent.\<close>

definition row_item :: "cell \<Rightarrow> cell result" where
  "row_item c = (case c of Missing \<Rightarrow> Inl KeyError | _ \<Rightarrow> Inr c)"

text \<open>\<open>x = row.get(col, d); x = float(x) if pd.notna(x) else d\<close>: an absent column
  and NaN both give the default.\<close>

definition row_get_float :: "cell \<Rightarrow> rat \<Rightarrow> rat result" where
  "row_get_float c d =
     (case c of
        Num x \<Rightarrow> Inr x
      | NaN \<Rightarrow> Inr d
      | Missing \<Rightarrow> Inr d
      | NotNumeric \<Rightarrow> Inl ValueError)"

text \<open>A travel leg: the recorded hours rescaled to the chosen speed, or the default
  distance when the cell is NaN.\<close>

definition scaled_leg :: "cell \<Rightarrow> rat \<Rightarrow> rat \<Rightarrow> rat result" where
  "scaled_leg c default_distance speed =
     (case c of
        Num t \<Rightarrow> py_div (t * REFERENCE_SPEED) speed
      | NaN \<Rightarrow> py_div default_distance speed
      | Missing \<Rightarrow> Inl KeyError
      | NotNumeric \<Rightarrow> Inl ValueError)"

definition compute_route_times ::
  "string \<Rightarrow> string \<Rightarrow> string \<Rightarrow> rat \<Rightarrow> rat \<Rightarrow> route_time_lookup option \<Rightarrow> (rat \<times> rat) result" where
  "compute_route_times parking loading dump empty_speed loaded_speed lookup =
     (let row = (case lookup of None \<Rightarrow> None | Some get_row \<Rightarrow> get_row parking loading dump);
          default_wait_loading = 1 / 10;
          default_spot_loading = 2 / 100;
          default_loading_time = 25 / 100;
          default_loaded_travel_distance = 40;
          default_empty_travel_distance = 40;
          default_service_time = 1 / 10
      in case row of
           Some r \<Rightarrow>
             (case (case scaled_leg (travel_parking_loading_h r) default_empty_travel_distance empty_speed of
                      Inl e \<Rightarrow> py_div default_empty_travel_distance empty_speed
                    | Inr v \<Rightarrow> Inr v) of
                Inl e \<Rightarrow> Inl e
              | Inr travel_parking_loading \<Rightarrow>
             (case row_get_float (waiting_for_loading_h r) default_wait_loading of
                Inl e \<Rightarrow> Inl e
              | Inr wait_loading \<Rightarrow>
             (case row_get_float (spoting_loading r) default_spot_loading of
                Inl e \<Rightarrow> Inl e
              | Inr spot_loading \<Rightarrow>
             (case row_get_float (loading_h r) default_loading_time of
                Inl e \<Rightarrow> Inl e
              | Inr loading_time \<Rightarrow>
             (case scaled_leg (loaded_travel_h r) default_loaded_travel_distance loaded_speed of
                Inl e \<Rightarrow> Inl e
              | Inr loaded_travel \<Rightarrow>
             (case row_get_float (dumping_h r) default_service_time of
                Inl e \<Rightarrow> Inl e
              | Inr dumping \<Rightarrow>
             (case row_get_float (dumping_spoting_h r) 0 of
                Inl e \<Rightarrow> Inl e
              | Inr dump_spot \<Rightarrow>
                  Inr (travel_parking_loading + wait_loading + spot_loading + loading_time
                         + loaded_travel, dumping + dump_spot))))))))
         | None \<Rightarrow>
             (case py_div default_empty_travel_distance empty_speed of
                Inl e \<Rightarrow> Inl e
              | Inr travel_parking_loading \<Rightarrow>
             (case py_div default_loaded_travel_distance loaded_speed of
                Inl e \<Rightarrow> Inl e
              | Inr loaded_travel \<Rightarrow>
                  Inr (travel_parking_loading + default_wait_loading + default_spot_loading
                         + default_loading_time + loaded_travel, default_service_time))))"

section \<open>Route configuration and the arrival event builder\<close>

text \<open>
  A route's dictionary. Every field is read with \<open>.get\<close>, so each may be absent.
  \<open>contractor_configs\<close> maps a contractor to its routes, keyed by parking location.
\<close>

record route_cfg =
  loading_location :: "string option"
  dumping_location :: "string option"
  departure_time :: "string option"
  number_of_trucks :: "int option"

type_synonym routes = "(string \<times> route_cfg) list"
type_synonym contractor_configs = "(string \<times> routes) list"

type_synonym events = "(string \<times> (rat \<times> rat) list) list"
type_synonym detailed_events = "(string \<times> (string \<times> rat \<times> rat \<times> string) list) list"

text \<open>\<open>int(parts[0]) + int(parts[1]) / 60.0 if len(parts) == 2 else 7.0\<close>\<close>

definition parse_departure :: "string \<Rightarrow> rat result" where
  "parse_departure departure_time_str =
     (case split_on (CHR '':'') departure_time_str of
        [p0, p1] \<Rightarrow>
          (case py_int p0 of
             Inl e \<Rightarrow> Inl e
           | Inr hh \<Rightarrow>
               (case py_int p1 of
                  Inl e \<Rightarrow> Inl e
                | Inr mm \<Rightarrow> Inr (of_int hh + of_int mm / 60)))
      | _ \<Rightarrow> Inr 7)"

text \<open>
  The body of the \<open>try\<close> block for one route. \<open>Inr None\<close> is a \<open>continue\<close>, \<open>Inl e\<close> an
  exception (which the \<open>except\<close> clause turns into a \<open>continue\<close>), and
  \<open>Inr (Some (dump, main, arrivals))\<close> the trucks to append: every fallible step comes
  before the first write to \<open>events\<close>.
\<close>

definition route_arrivals ::
  "hierarchy \<Rightarrow> rat \<Rightarrow> rat \<Rightarrow> route_time_lookup option \<Rightarrow> rat \<Rightarrow> string \<Rightarrow> route_cfg
     \<Rightarrow> (string \<times> string \<times> (rat \<times> rat) list) option result" where
  "route_arrivals h empty_speed loaded_speed lookup spacing parking_location cfg =
     (let departure_time_str = (case departure_time cfg of None \<Rightarrow> ''7:00'' | Some d \<Rightarrow> d);
          num_trucks = (case number_of_trucks cfg of None \<Rightarrow> 0 | Some n \<Rightarrow> n)
      in case dumping_location cfg of
           None \<Rightarrow> Inr None
         | Some dump_location \<Rightarrow>
        (case loading_location cfg of
           None \<Rightarrow> Inr None
         | Some loading_loc \<Rightarrow>
             if dump_location = [] \<or> loading_loc = [] \<or> num_trucks \<le> 0 then Inr None
             else
               (case get_main_feni_from_sub_point h dump_location of
                  None \<Rightarrow> Inr None
                | Some main_feni \<Rightarrow>
               (case parse_departure departure_time_str of
                  Inl e \<Rightarrow> Inl e
                | Inr depart_hour \<Rightarrow>
               (case compute_route_times parking_location loading_loc dump_location
                       empty_speed loaded_speed lookup of
                  Inl e \<Rightarrow> Inl e
                | Inr (travel_time, service_time) \<Rightarrow>
                    Inr (Some (dump_location, main_feni,
                      map (\<lambda>i. (depart_hour + travel_time + of_nat i * spacing, service_time))
                        [0 ..< nat num_trucks])))))))"

definition dict_get_list :: "(string \<times> 'a list) list \<Rightarrow> string \<Rightarrow> 'a list" where
  "dict_get_list d k = (case map_of d k of None \<Rightarrow> [] | Some xs \<Rightarrow> xs)"

definition add_route_events ::
  "hierarchy \<Rightarrow> rat \<Rightarrow> rat \<Rightarrow> route_time_lookup option \<Rightarrow> rat \<Rightarrow> string
     \<Rightarrow> events \<times> detailed_events \<Rightarrow> string \<times> route_cfg \<Rightarrow> events \<times> detailed_events" where
  "add_route_events h empty_speed loaded_speed lookup spacing contractor acc route =
     (case acc of (events, detailed_events) \<Rightarrow>
      case route of (parking_location, cfg) \<Rightarrow>
      case route_arrivals h empty_speed loaded_speed lookup spacing parking_location cfg of
        Inr (Some (dump_location, main_feni, arrivals)) \<Rightarrow>
          (AList.update dump_location (dict_get_list events dump_location @ arrivals) events,
           AList.update dump_location
             (dict_get_list detailed_events dump_location
                @ map (\<lambda>(arrival_time, service_time).
                         (contractor, arrival_time, service_time, main_feni)) arrivals)
             detailed_events)
      | _ \<Rightarrow> acc)"

definition add_contractor_events ::
  "hierarchy \<Rightarrow> rat \<Rightarrow> rat \<Rightarrow> route_time_lookup option \<Rightarrow> rat
     \<Rightarrow> events \<times> detailed_events \<Rightarrow> string \<times> routes \<Rightarrow> events \<times> detailed_events" where
  "add_contractor_events h empty_speed loaded_speed lookup spacing acc entry =
     (case entry of (contractor, rs) \<Rightarrow>
        foldl (add_route_events h empty_speed loaded_speed lookup spacing contractor) acc rs)"

definition build_arrival_events ::
  "hierarchy \<Rightarrow> contractor_configs \<Rightarrow> rat \<Rightarrow> rat \<Rightarrow> route_time_lookup option \<Rightarrow> rat
     \<Rightarrow> events \<times> detailed_events" where
  "build_arrival_events h contractor_configs empty_speed loaded_speed lookup spacing =
     (case foldl (add_contractor_events h empty_speed loaded_speed lookup spacing) ([], [])
             contractor_configs of
        (events, detailed_events) \<Rightarrow>
          (map (\<lambda>(key, evs). (key, sort_key fst evs)) events,
           map (\<lambda>(key, evs). (key, sort_key (\<lambda>x. fst (snd x)) evs)) detailed_events))"

section \<open>\<open>simulate_wait_times\<close>: queues per sub-point and zone aggregation\<close>

text \<open>The queue loop written inline in \<open>simulate_wait_times\<close>, over \<open>range(servers)\<close>.\<close>

definition assign_truck :: "int \<Rightarrow> rat list \<times> rat \<Rightarrow> rat \<times> rat \<Rightarrow> (rat list \<times> rat) result" where
  "assign_truck servers st ev =
     (case st of (free_times, total_wait) \<Rightarrow>
      case ev of (arrival_time, service_time) \<Rightarrow>
      case py_min_key (\<lambda>i. free_times ! i) [0 ..< nat servers] of
        Inl e \<Rightarrow> Inl e
      | Inr idx \<Rightarrow>
          let start = max arrival_time (free_times ! idx)
          in Inr (free_times[idx := start + service_time], total_wait + (start - arrival_time)))"

fun assign_trucks :: "int \<Rightarrow> rat list \<times> rat \<Rightarrow> (rat \<times> rat) list \<Rightarrow> (rat list \<times> rat) result" where
  "assign_trucks servers st [] = Inr st"
| "assign_trucks servers st (ev # evs) =
     (case assign_truck servers st ev of
        Inl e \<Rightarrow> Inl e
      | Inr st' \<Rightarrow> assign_trucks servers st' evs)"

definition subpoint_wait :: "hierarchy \<Rightarrow> string \<Rightarrow> (rat \<times> rat) list \<Rightarrow> rat result" where
  "subpoint_wait h subpoint arrivals =
     (case num_servers_for h subpoint of
        Inl e \<Rightarrow> Inl e
      | Inr servers \<Rightarrow>
          if arrivals = [] then Inr 0
          else
            (case assign_trucks servers (replicate (nat servers) 0, 0) arrivals of
               Inl e \<Rightarrow> Inl e
             | Inr (free_times, total_wait) \<Rightarrow>
                 Inr ((total_wait / of_nat (length arrivals)) * 60)))"

fun subpoint_waits_of :: "hierarchy \<Rightarrow> (string \<times> rat) list \<Rightarrow> events \<Rightarrow> (string \<times> rat) list result" where
  "subpoint_waits_of h subpoint_waits [] = Inr subpoint_waits"
| "subpoint_waits_of h subpoint_waits ((subpoint, arrivals) # rest) =
     (case subpoint_wait h subpoint arrivals of
        Inl e \<Rightarrow> Inl e
      | Inr w \<Rightarrow> subpoint_waits_of h (AList.update subpoint w subpoint_waits) rest)"

text \<open>The number of trucks per sub-point, over every route of the configuration.\<close>

definition dict_get_int :: "(string \<times> int) list \<Rightarrow> string \<Rightarrow> int" where
  "dict_get_int d k = (case map_of d k of None \<Rightarrow> 0 | Some n \<Rightarrow> n)"

definition count_route_trucks :: "(string \<times> int) list \<Rightarrow> string \<times> route_cfg \<Rightarrow> (string \<times> int) list" where
  "count_route_trucks trucks_per_subpoint route =
     (case route of (parking_location, cfg) \<Rightarrow>
        let dump_location = (case dumping_location cfg of None \<Rightarrow> [] | Some d \<Rightarrow> d);
            num_trucks = (case number_of_trucks cfg of None \<Rightarrow> 0 | Some n \<Rightarrow> n)
        in if dump_location = [] then trucks_per_subpoint
           else AList.update dump_location
                  (dict_get_int trucks_per_subpoint dump_location + num_trucks) trucks_per_subpoint)"

definition trucks_per_subpoint_of :: "contractor_configs \<Rightarrow> (string \<times> int) list" where
  "trucks_per_subpoint_of contractor_configs =
     foldl (\<lambda>acc (contractor, rs). foldl count_route_trucks acc rs) [] contractor_configs"

text \<open>
  Zone aggregation. \<open>d[k] += v\<close> on a dictionary without the key \<open>k\<close> raises KeyError;
  the two totals dictionaries have exactly the keys \<open>'FENI KM 0'\<close> and \<open>'FENI KM 15'\<close>.
\<close>

definition dict_add :: "(string \<times> 'a::plus) list \<Rightarrow> string \<Rightarrow> 'a \<Rightarrow> (string \<times> 'a) list result" where
  "dict_add d k v = (case map_of d k of None \<Rightarrow> Inl KeyError | Some x \<Rightarrow> Inr (AList.update k (x + v) d))"

fun zone_totals ::
  "hierarchy \<Rightarrow> (string \<times> int) list \<Rightarrow> (string \<times> rat) list \<times> (string \<times> int) list
     \<Rightarrow> (string \<times> rat) list \<Rightarrow> ((string \<times> rat) list \<times> (string \<times> int) list) result" where
  "zone_totals h trucks_per_subpoint acc [] = Inr acc"
| "zone_totals h trucks_per_subpoint acc ((subpoint, avg_wait) # rest) =
     (case acc of (zone_wait_totals, zone_truck_totals) \<Rightarrow>
      case get_main_feni_from_sub_point h subpoint of
        None \<Rightarrow> zone_totals h trucks_per_subpoint acc rest
      | Some main_feni \<Rightarrow>
          let trucks = dict_get_int trucks_per_subpoint subpoint
          in (case dict_add zone_wait_totals main_feni (avg_wait * of_int trucks) of
                Inl e \<Rightarrow> Inl e
              | Inr wait_totals' \<Rightarrow>
                  (case dict_add zone_truck_totals main_feni trucks of
                     Inl e \<Rightarrow> Inl e
                   | Inr truck_totals' \<Rightarrow>
                       zone_totals h trucks_per_subpoint (wait_totals', truck_totals') rest)))"

definition zone_average :: "(string \<times> int) list \<Rightarrow> string \<times> rat \<Rightarrow> (string \<times> rat) result" where
  "zone_average zone_truck_totals entry =
     (case entry of (zone, wait_total) \<Rightarrow>
      case map_of zone_truck_totals zone of
        None \<Rightarrow> Inl KeyError
      | Some n \<Rightarrow> Inr (zone, if n > 0 then wait_total / of_int n else 0))"

fun zone_averages :: "(string \<times> int) list \<Rightarrow> (string \<times> rat) list \<Rightarrow> (string \<times> rat) list result" where
  "zone_averages zone_truck_totals [] = Inr []"
| "zone_averages zone_truck_totals (entry # rest) =
     (case zone_average zone_truck_totals entry of
        Inl e \<Rightarrow> Inl e
      | Inr z \<Rightarrow>
          (case zone_averages zone_truck_totals rest of
             Inl e \<Rightarrow> Inl e
           | Inr zs \<Rightarrow> Inr (z # zs)))"

definition aggregate_zones ::
  "hierarchy \<Rightarrow> (string \<times> rat) list \<Rightarrow> (string \<times> int) list \<Rightarrow> (string \<times> rat) list result" where
  "aggregate_zones h subpoint_waits trucks_per_subpoint =
     (case zone_totals h trucks_per_subpoint
             ([(''FENI KM 0'', 0), (''FENI KM 15'', 0)], [(''FENI KM 0'', 0), (''FENI KM 15'', 0)])
             subpoint_waits of
        Inl e \<Rightarrow> Inl e
      | Inr (zone_wait_totals, zone_truck_totals) \<Rightarrow>
          zone_averages zone_truck_totals zone_wait_totals)"

definition simulate_wait_times ::
  "hierarchy \<Rightarrow> contractor_configs \<Rightarrow> rat \<Rightarrow> rat \<Rightarrow> route_time_lookup option \<Rightarrow> rat
     \<Rightarrow> ((string \<times> rat) list \<times> detailed_events) result" where
  "simulate_wait_times h contractor_configs empty_speed loaded_speed lookup spacing =
     (case build_arrival_events h contractor_configs empty_speed loaded_speed lookup spacing of
        (events, detailed) \<Rightarrow>
          (case subpoint_waits_of h [] events of
             Inl e \<Rightarrow> Inl e
           | Inr subpoint_waits \<Rightarrow>
               (case aggregate_zones h subpoint_waits (trucks_per_subpoint_of contractor_configs) of
                  Inl e \<Rightarrow> Inl e
                | Inr zone_waits \<Rightarrow> Inr (zone_waits, detailed))))"

section \<open>The departure-time optimiser on configuration values\<close>

text \<open>
  In this section a configuration is a value: \<open>copy.deepcopy\<close> is the identity on it and
  \<open>config[contractor][route]['departure_time'] = t\<close> is a functional update that keeps
  the position of every key. The store, with the copies the code really makes, is the
  subject of a later section.
\<close>

definition route_of :: "contractor_configs \<Rightarrow> string \<Rightarrow> string \<Rightarrow> route_cfg option" where
  "route_of config contractor route =
     (case map_of config contractor of None \<Rightarrow> None | Some rs \<Rightarrow> map_of rs route)"

definition set_departure_time :: "contractor_configs \<Rightarrow> string \<Rightarrow> string \<Rightarrow> string \<Rightarrow> contractor_configs" where
  "set_departure_time config contractor route t =
     (case map_of config contractor of
        None \<Rightarrow> config
      | Some rs \<Rightarrow>
          (case map_of rs route of
             None \<Rightarrow> config
           | Some cfg \<Rightarrow>
               AList.update contractor
                 (AList.update route (cfg\<lparr>departure_time := Some t\<rparr>) rs) config))"

definition trucks_zone :: "hierarchy \<Rightarrow> contractor_configs \<Rightarrow> string \<Rightarrow> int" where
  "trucks_zone h config zone =
     foldl (\<lambda>n (c, rs).
        foldl (\<lambda>n (r, cfg).
           if get_main_feni_from_sub_point h
                (case dumping_location cfg of None \<Rightarrow> [] | Some d \<Rightarrow> d) = Some zone
           then n + (case number_of_trucks cfg of None \<Rightarrow> 0 | Some k \<Rightarrow> k)
           else n) n rs) 0 config"

definition dict_get_rat :: "(string \<times> rat) list \<Rightarrow> string \<Rightarrow> rat" where
  "dict_get_rat d k = (case map_of d k of None \<Rightarrow> 0 | Some x \<Rightarrow> x)"

text \<open>Everything \<open>evaluate_departure_for_route\<close> does after the copy is modified.\<close>

definition weighted_total_wait ::
  "hierarchy \<Rightarrow> contractor_configs \<Rightarrow> rat \<Rightarrow> rat \<Rightarrow> route_time_lookup option \<Rightarrow> rat
     \<Rightarrow> (rat \<times> (string \<times> rat) list) result" where
  "weighted_total_wait h config empty_speed loaded_speed lookup spacing =
     (case simulate_wait_times h config empty_speed loaded_speed lookup spacing of
        Inl e \<Rightarrow> Inl e
      | Inr (wait_times, detailed) \<Rightarrow>
          Inr (foldl (\<lambda>total_wait_minutes zone.
                        total_wait_minutes
                          + dict_get_rat wait_times zone * of_int (trucks_zone h config zone))
                 0 [''FENI KM 0'', ''FENI KM 15''],
               wait_times))"

definition evaluate_departure_for_route ::
  "hierarchy \<Rightarrow> contractor_configs \<Rightarrow> string \<Rightarrow> string \<Rightarrow> string \<Rightarrow> rat \<Rightarrow> rat
     \<Rightarrow> route_time_lookup option \<Rightarrow> contractor_configs option \<Rightarrow> rat
     \<Rightarrow> (rat \<times> (string \<times> rat) list) result" where
  "evaluate_departure_for_route h contractor_configs contractor route candidate_time
       empty_speed loaded_speed lookup baseline_configs spacing =
     (let config = (case baseline_configs of Some b \<Rightarrow> b | None \<Rightarrow> contractor_configs);
          config = set_departure_time config contractor route candidate_time
      in weighted_total_wait h config empty_speed loaded_speed lookup spacing)"

text \<open>
  The search over the candidates of one route. \<open>best_total_wait\<close> starts at
  \<open>float('inf')\<close>, here \<open>None\<close>; a candidate replaces the best one only when its total is
  strictly smaller.
\<close>

fun search_candidates ::
  "(string \<Rightarrow> (rat \<times> (string \<times> rat) list) result) \<Rightarrow> string \<times> rat option \<Rightarrow> string list
     \<Rightarrow> (string \<times> rat option) result" where
  "search_candidates eval best [] = Inr best"
| "search_candidates eval best (candidate # rest) =
     (case eval candidate of
        Inl e \<Rightarrow> Inl e
      | Inr (total_wait, waits) \<Rightarrow>
          search_candidates eval
            (case best of (best_depart, best_total_wait) \<Rightarrow>
               if (case best_total_wait of None \<Rightarrow> True | Some b \<Rightarrow> total_wait < b)
               then (candidate, Some total_wait) else best)
            rest)"

type_synonym recommended = "(string \<times> (string \<times> string \<times> string) list) list"

fun optimise_routes ::
  "hierarchy \<Rightarrow> contractor_configs \<Rightarrow> rat \<Rightarrow> rat \<Rightarrow> string list \<Rightarrow> route_time_lookup option \<Rightarrow> rat
     \<Rightarrow> string \<Rightarrow> recommended \<Rightarrow> routes \<Rightarrow> recommended result" where
  "optimise_routes h contractor_configs empty_speed loaded_speed candidate_times lookup spacing
       contractor recommended [] = Inr recommended"
| "optimise_routes h contractor_configs empty_speed loaded_speed candidate_times lookup spacing
       contractor recommended ((route, cfg) # rest) =
     (let current_depart = (case departure_time cfg of None \<Rightarrow> ''7:00'' | Some d \<Rightarrow> d)
      in case search_candidates
                (\<lambda>candidate. evaluate_departure_for_route h contractor_configs contractor route
                    candidate empty_speed loaded_speed lookup (Some contractor_configs) spacing)
                (current_depart, None) candidate_times of
           Inl e \<Rightarrow> Inl e
         | Inr (best_depart, best_total_wait) \<Rightarrow>
             optimise_routes h contractor_configs empty_speed loaded_speed candidate_times lookup
               spacing contractor
               (AList.update contractor
                  (AList.update route (current_depart, best_depart)
                     (dict_get_list recommended contractor)) recommended)
               rest)"

fun optimise_contractors ::
  "hierarchy \<Rightarrow> contractor_configs \<Rightarrow> rat \<Rightarrow> rat \<Rightarrow> string list \<Rightarrow> route_time_lookup option \<Rightarrow> rat
     \<Rightarrow> recommended \<Rightarrow> contractor_configs \<Rightarrow> recommended result" where
  "optimise_contractors h contractor_configs empty_speed loaded_speed candidate_times lookup
       spacing recommended [] = Inr recommended"
| "optimise_contractors h contractor_configs empty_speed loaded_speed candidate_times lookup
       spacing recommended ((contractor, rs) # rest) =
     (let recommended =
            (if contractor \<in> fst ` set recommended then recommended
             else AList.update contractor [] recommended)
      in case optimise_routes h contractor_configs empty_speed loaded_speed candidate_times
                lookup spacing contractor recommended rs of
           Inl e \<Rightarrow> Inl e
         | Inr recommended' \<Rightarrow>
             optimise_contractors h contractor_configs empty_speed loaded_speed candidate_times
               lookup spacing recommended' rest)"

text \<open>The second pass: every recommended time written into one working copy.\<close>

definition apply_recommended :: "contractor_configs \<Rightarrow> recommended \<Rightarrow> contractor_configs" where
  "apply_recommended updated_config recommended =
     foldl (\<lambda>config (contractor, rs).
        foldl (\<lambda>config (route, (current, optimal)).
           set_departure_time config contractor route optimal) config rs)
       updated_config recommended"

definition optimise_departure_times ::
  "hierarchy \<Rightarrow> contractor_configs \<Rightarrow> rat \<Rightarrow> rat \<Rightarrow> string list \<Rightarrow> route_time_lookup option \<Rightarrow> rat
     \<Rightarrow> (recommended \<times> (string \<times> rat) list \<times> (string \<times> rat) list) result" where
  "optimise_departure_times h contractor_configs empty_speed loaded_speed candidate_times
       lookup spacing =
     (case simulate_wait_times h contractor_configs empty_speed loaded_speed lookup spacing of
        Inl e \<Rightarrow> Inl e
      | Inr (baseline_waits, detailed) \<Rightarrow>
          (case optimise_contractors h contractor_configs empty_speed loaded_speed
                  candidate_times lookup spacing [] contractor_configs of
             Inl e \<Rightarrow> Inl e
           | Inr recommended \<Rightarrow>
               (case simulate_wait_times h (apply_recommended contractor_configs recommended)
                       empty_speed loaded_speed lookup spacing of
                  Inl e \<Rightarrow> Inl e
                | Inr (optimised_waits, detailed') \<Rightarrow>
                    Inr (recommended, baseline_waits, optimised_waits))))"

section \<open>Notions used to state and prove the properties\<close>

text \<open>The number of servers that are free at time \<open>t\<close>.\<close>

definition free_by :: "rat \<Rightarrow> rat list \<Rightarrow> nat" where
  "free_by t fs = length (filter (\<lambda>v. v \<le> t) fs)"

text \<open>A string that \<open>int\<close> accepts.\<close>

definition is_int_literal :: "string \<Rightarrow> bool" where
  "is_int_literal s = (case py_int s of Inl e \<Rightarrow> False | Inr n \<Rightarrow> True)"

text \<open>A line range of the form \<open>lo-hi\<close> with integers \<open>lo\<close> and \<open>hi\<close>.\<close>

definition well_formed_range :: "string \<Rightarrow> bool" where
  "well_formed_range l =
     (case split_on (CHR ''-'') l of
        [p0, p1] \<Rightarrow> is_int_literal p0 \<and> is_int_literal p1
      | _ \<Rightarrow> False)"

text \<open>A hierarchy with one sub-point whose line range is not a pair of integers.\<close>

definition malformed_hierarchy :: hierarchy where
  "malformed_hierarchy =
    [(''FENI KM 0'',
        \<lparr>location_code = ''FENI KM0'', distance_base = ''FENI KM0'',
         sub_points = [(''FENI A (LINE 1-2)'', \<lparr>lines = Some ''1 to 2'', priority = 1\<rparr>)]\<rparr>)]"

text \<open>
  The zone average in the words of the specification: over the sub-points of the zone,
  the sum of average wait times truck count, divided by the total truck count when that
  is positive, and 0 otherwise.
\<close>

definition zone_members :: "hierarchy \<Rightarrow> (string \<times> rat) list \<Rightarrow> string \<Rightarrow> (string \<times> rat) list" where
  "zone_members h subpoint_waits zone =
     filter (\<lambda>(sp, w). get_main_feni_from_sub_point h sp = Some zone) subpoint_waits"

definition spec_zone_numerator :: "hierarchy \<Rightarrow> (string \<times> rat) list \<Rightarrow> (string \<times> int) list \<Rightarrow> string \<Rightarrow> rat" where
  "spec_zone_numerator h subpoint_waits trucks zone =
     sum_list (map (\<lambda>(sp, w). w * of_int (dict_get_int trucks sp))
                 (zone_members h subpoint_waits zone))"

definition spec_zone_trucks :: "hierarchy \<Rightarrow> (string \<times> rat) list \<Rightarrow> (string \<times> int) list \<Rightarrow> string \<Rightarrow> int" where
  "spec_zone_trucks h subpoint_waits trucks zone =
     sum_list (map (\<lambda>(sp, w). dict_get_int trucks sp) (zone_members h subpoint_waits zone))"

definition spec_zone_average :: "hierarchy \<Rightarrow> (string \<times> rat) list \<Rightarrow> (string \<times> int) list \<Rightarrow> string \<Rightarrow> rat" where
  "spec_zone_average h subpoint_waits trucks zone =
     (if spec_zone_trucks h subpoint_waits trucks zone > 0
      then spec_zone_numerator h subpoint_waits trucks zone
             / of_int (spec_zone_trucks h subpoint_waits trucks zone)
      else 0)"

text \<open>A configuration with one route of two trucks, departing at the given time.\<close>

definition one_route :: "string \<Rightarrow> contractor_configs" where
  "one_route t =
     [(''RIM'', [(''TF'', \<lparr>loading_location = Some ''TF'',
                            dumping_location = Some ''FENI A (LINE 1-2)'',
                            departure_time = Some t,
                            number_of_trucks = Some 2\<rparr>)])]"

text \<open>A configuration with two routes to the same sub-point.\<close>

definition two_routes :: contractor_configs where
  "two_routes =
     [(''RIM'', [(''TF'', \<lparr>loading_location = Some ''TF'',
                            dumping_location = Some ''FENI U1 (LINE 65-66)'',
                            departure_time = Some ''7:00'',
                            number_of_trucks = Some 2\<rparr>)]),
      (''GMG'', [(''KR'', \<lparr>loading_location = Some ''KR'',
                            dumping_location = Some ''FENI U1 (LINE 65-66)'',
                            departure_time = Some ''7:00'',
                            number_of_trucks = Some 2\<rparr>)])]"

text \<open>
  The invariant of the optimiser's first pass. \<open>ev c r x\<close> is the evaluation of candidate
  \<open>x\<close> for route \<open>(c, r)\<close>; a recommended time is good when its evaluation returned and
  is at most the evaluation of every candidate.
\<close>

definition eval_ok ::
  "(string \<Rightarrow> string \<Rightarrow> string \<Rightarrow> (rat \<times> (string \<times> rat) list) result) \<Rightarrow> string list
     \<Rightarrow> string \<Rightarrow> string \<Rightarrow> string \<Rightarrow> bool" where
  "eval_ok ev cands c r best \<longleftrightarrow>
     (cands \<noteq> [] \<longrightarrow>
       (\<exists>tb wb. ev c r best = Inr (tb, wb)
          \<and> (\<forall>x \<in> set cands. \<exists>tx wx. ev c r x = Inr (tx, wx) \<and> tb \<le> tx)))"

definition good_rec ::
  "(string \<Rightarrow> string \<Rightarrow> string \<Rightarrow> (rat \<times> (string \<times> rat) list) result) \<Rightarrow> string list
     \<Rightarrow> recommended \<Rightarrow> bool" where
  "good_rec ev cands rec \<longleftrightarrow>
     (\<forall>c rs r cur best. map_of rec c = Some rs \<longrightarrow> map_of rs r = Some (cur, best)
        \<longrightarrow> eval_ok ev cands c r best)"

text \<open>\<open>recommended[contractor][route]\<close>, and \<open>cfg.get('departure_time', '7:00')\<close>.\<close>

definition rec_of :: "recommended \<Rightarrow> string \<Rightarrow> string \<Rightarrow> (string \<times> string) option" where
  "rec_of recommended contractor route =
     (case map_of recommended contractor of None \<Rightarrow> None | Some rs \<Rightarrow> map_of rs route)"

definition current_departure :: "route_cfg \<Rightarrow> string" where
  "current_departure cfg = (case departure_time cfg of None \<Rightarrow> ''7:00'' | Some d \<Rightarrow> d)"

text \<open>The keys of a dictionary are distinct, at both levels of a configuration.\<close>

definition dict_keys_distinct :: "contractor_configs \<Rightarrow> bool" where
  "dict_keys_distinct config \<longleftrightarrow>
     distinct (map fst config) \<and> (\<forall>(c, rs) \<in> set config. distinct (map fst rs))"

section \<open>The optimiser on a store: copies and writes\<close>

text \<open>
  The caller's configuration is an object graph: a dictionary of references to route
  dictionaries, each a dictionary of references to the routes' own dictionaries.
  \<open>copy.deepcopy\<close> allocates new objects and the assignment
  \<open>config[contractor][route]['departure_time'] = t\<close> writes into the object that the
  references lead to. The store has one heap per kind of object; an address is an index
  into its heap and allocation appends. Everything that only reads a configuration
  (\<open>simulate_wait_times\<close> and the totals) is the function of the previous sections,
  applied to the value read from the store.

  A reference to an address outside its heap cannot occur in a Python heap; reading one
  is the error \<open>Dangling\<close>.
\<close>

type_synonym addr = nat

datatype store_error = Dangling | Raised py_error

record store =
  contractor_dicts :: "(string \<times> addr) list list"
  route_dicts :: "(string \<times> addr) list list"
  cfg_dicts :: "route_cfg list"

type_synonym memo = "(addr \<times> addr) list"

subsection \<open>Reading a configuration value out of the store\<close>

fun read_entries :: "(addr \<Rightarrow> 'a option) \<Rightarrow> (string \<times> addr) list \<Rightarrow> (string \<times> 'a) list option" where
  "read_entries rd [] = Some []"
| "read_entries rd ((k, a) # kvs) =
     (case rd a of
        None \<Rightarrow> None
      | Some v \<Rightarrow> (case read_entries rd kvs of None \<Rightarrow> None | Some vs \<Rightarrow> Some ((k, v) # vs)))"

definition read_cfg :: "store \<Rightarrow> addr \<Rightarrow> route_cfg option" where
  "read_cfg s a = (if a < length (cfg_dicts s) then Some (cfg_dicts s ! a) else None)"

definition read_routes :: "store \<Rightarrow> addr \<Rightarrow> routes option" where
  "read_routes s a =
     (if a < length (route_dicts s) then read_entries (read_cfg s) (route_dicts s ! a) else None)"

definition read_config :: "store \<Rightarrow> addr \<Rightarrow> contractor_configs option" where
  "read_config s a =
     (if a < length (contractor_dicts s)
      then read_entries (read_routes s) (contractor_dicts s ! a) else None)"

subsection \<open>\<open>copy.deepcopy\<close>\<close>

text \<open>
  \<open>deepcopy\<close> keeps a memo from the objects already copied to their copies, so that an
  object reached twice is copied once. Strings and integers are immutable and are not
  copied.
\<close>

definition copy_cfg :: "store \<Rightarrow> memo \<Rightarrow> addr \<Rightarrow> store \<times> memo \<times> (store_error + addr)" where
  "copy_cfg s memo_c a =
     (case map_of memo_c a of
        Some a' \<Rightarrow> (s, memo_c, Inr a')
      | None \<Rightarrow>
          if a < length (cfg_dicts s)
          then (s\<lparr>cfg_dicts := cfg_dicts s @ [cfg_dicts s ! a]\<rparr>,
                (a, length (cfg_dicts s)) # memo_c, Inr (length (cfg_dicts s)))
          else (s, memo_c, Inl Dangling))"

fun copy_cfg_refs ::
  "store \<Rightarrow> memo \<Rightarrow> (string \<times> addr) list \<Rightarrow> store \<times> memo \<times> (store_error + (string \<times> addr) list)" where
  "copy_cfg_refs s memo_c [] = (s, memo_c, Inr [])"
| "copy_cfg_refs s memo_c ((k, a) # kvs) =
     (case copy_cfg s memo_c a of
        (s1, m1, Inl e) \<Rightarrow> (s1, m1, Inl e)
      | (s1, m1, Inr a') \<Rightarrow>
          (case copy_cfg_refs s1 m1 kvs of
             (s2, m2, Inl e) \<Rightarrow> (s2, m2, Inl e)
           | (s2, m2, Inr kvs') \<Rightarrow> (s2, m2, Inr ((k, a') # kvs'))))"

definition copy_routes ::
  "store \<Rightarrow> memo \<Rightarrow> memo \<Rightarrow> addr \<Rightarrow> store \<times> memo \<times> memo \<times> (store_error + addr)" where
  "copy_routes s memo_r memo_c a =
     (case map_of memo_r a of
        Some a' \<Rightarrow> (s, memo_r, memo_c, Inr a')
      | None \<Rightarrow>
          if a < length (route_dicts s)
          then (case copy_cfg_refs s memo_c (route_dicts s ! a) of
                  (s1, m1, Inl e) \<Rightarrow> (s1, memo_r, m1, Inl e)
                | (s1, m1, Inr kvs') \<Rightarrow>
                    (s1\<lparr>route_dicts := route_dicts s1 @ [kvs']\<rparr>,
                     (a, length (route_dicts s1)) # memo_r, m1, Inr (length (route_dicts s1))))
          else (s, memo_r, memo_c, Inl Dangling))"

fun copy_routes_refs ::
  "store \<Rightarrow> memo \<Rightarrow> memo \<Rightarrow> (string \<times> addr) list
     \<Rightarrow> store \<times> memo \<times> memo \<times> (store_error + (string \<times> addr) list)" where
  "copy_routes_refs s memo_r memo_c [] = (s, memo_r, memo_c, Inr [])"
| "copy_routes_refs s memo_r memo_c ((k, a) # kvs) =
     (case copy_routes s memo_r memo_c a of
        (s1, mr1, mc1, Inl e) \<Rightarrow> (s1, mr1, mc1, Inl e)
      | (s1, mr1, mc1, Inr a') \<Rightarrow>
          (case copy_routes_refs s1 mr1 mc1 kvs of
             (s2, mr2, mc2, Inl e) \<Rightarrow> (s2, mr2, mc2, Inl e)
           | (s2, mr2, mc2, Inr kvs') \<Rightarrow> (s2, mr2, mc2, Inr ((k, a') # kvs'))))"

definition deepcopy :: "store \<Rightarrow> addr \<Rightarrow> store \<times> (store_error + addr)" where
  "deepcopy s a =
     (if a < length (contractor_dicts s)
      then (case copy_routes_refs s [] [] (contractor_dicts s ! a) of
              (s1, mr, mc, Inl e) \<Rightarrow> (s1, Inl e)
            | (s1, mr, mc, Inr kvs') \<Rightarrow>
                (s1\<lparr>contractor_dicts := contractor_dicts s1 @ [kvs']\<rparr>,
                 Inr (length (contractor_dicts s1))))
      else (s, Inl Dangling))"

subsection \<open>The assignment to one route's departure time\<close>

text \<open>
  \<open>if contractor in config and route in config[contractor]:
      config[contractor][route]['departure_time'] = t\<close>
\<close>

definition set_departure_time_store ::
  "store \<Rightarrow> addr \<Rightarrow> string \<Rightarrow> string \<Rightarrow> string \<Rightarrow> store \<times> (store_error + unit)" where
  "set_departure_time_store s config contractor route t =
     (if config < length (contractor_dicts s) then
        (case map_of (contractor_dicts s ! config) contractor of
           None \<Rightarrow> (s, Inr ())
         | Some ra \<Rightarrow>
             if ra < length (route_dicts s) then
               (case map_of (route_dicts s ! ra) route of
                  None \<Rightarrow> (s, Inr ())
                | Some ca \<Rightarrow>
                    if ca < length (cfg_dicts s)
                    then (s\<lparr>cfg_dicts := (cfg_dicts s)
                              [ca := (cfg_dicts s ! ca)\<lparr>departure_time := Some t\<rparr>]\<rparr>, Inr ())
                    else (s, Inl Dangling))
             else (s, Inl Dangling))
      else (s, Inl Dangling))"

subsection \<open>\<open>evaluate_departure_for_route\<close> and \<open>optimise_departure_times\<close> with their effects\<close>

definition lift_result :: "'a result \<Rightarrow> store_error + 'a" where
  "lift_result r = (case r of Inl e \<Rightarrow> Inl (Raised e) | Inr v \<Rightarrow> Inr v)"

definition evaluate_departure_for_route_store ::
  "hierarchy \<Rightarrow> store \<Rightarrow> addr \<Rightarrow> string \<Rightarrow> string \<Rightarrow> string \<Rightarrow> rat \<Rightarrow> rat
     \<Rightarrow> route_time_lookup option \<Rightarrow> addr option \<Rightarrow> rat
     \<Rightarrow> store \<times> (store_error + rat \<times> (string \<times> rat) list)" where
  "evaluate_departure_for_route_store h s contractor_configs contractor route candidate_time
       empty_speed loaded_speed lookup baseline_configs spacing =
     (case deepcopy s (case baseline_configs of Some b \<Rightarrow> b | None \<Rightarrow> contractor_configs) of
        (s1, Inl e) \<Rightarrow> (s1, Inl e)
      | (s1, Inr config) \<Rightarrow>
          (case set_departure_time_store s1 config contractor route candidate_time of
             (s2, Inl e) \<Rightarrow> (s2, Inl e)
           | (s2, Inr u) \<Rightarrow>
               (case read_config s2 config of
                  None \<Rightarrow> (s2, Inl Dangling)
                | Some v \<Rightarrow>
                    (s2, lift_result
                           (weighted_total_wait h v empty_speed loaded_speed lookup spacing)))))"

fun search_candidates_store ::
  "(store \<Rightarrow> string \<Rightarrow> store \<times> (store_error + rat \<times> (string \<times> rat) list)) \<Rightarrow> store
     \<Rightarrow> string \<times> rat option \<Rightarrow> string list \<Rightarrow> store \<times> (store_error + string \<times> rat option)" where
  "search_candidates_store eval s best [] = (s, Inr best)"
| "search_candidates_store eval s best (candidate # rest) =
     (case eval s candidate of
        (s1, Inl e) \<Rightarrow> (s1, Inl e)
      | (s1, Inr (total_wait, waits)) \<Rightarrow>
          search_candidates_store eval s1
            (case best of (best_depart, best_total_wait) \<Rightarrow>
               if (case best_total_wait of None \<Rightarrow> True | Some b \<Rightarrow> total_wait < b)
               then (candidate, Some total_wait) else best)
            rest)"

text \<open>
  The loop over the routes of one contractor. The entries are those of the route
  dictionary when the loop starts; \<open>cfg.get('departure_time', '7:00')\<close> reads the route's
  dictionary in the store as it is when the route's turn comes.
\<close>

fun optimise_routes_store ::
  "hierarchy \<Rightarrow> addr \<Rightarrow> rat \<Rightarrow> rat \<Rightarrow> string list \<Rightarrow> route_time_lookup option \<Rightarrow> rat
     \<Rightarrow> string \<Rightarrow> store \<Rightarrow> recommended \<Rightarrow> (string \<times> addr) list
     \<Rightarrow> store \<times> (store_error + recommended)" where
  "optimise_routes_store h contractor_configs empty_speed loaded_speed candidate_times lookup
       spacing contractor s recommended [] = (s, Inr recommended)"
| "optimise_routes_store h contractor_configs empty_speed loaded_speed candidate_times lookup
       spacing contractor s recommended ((route, cfg) # rest) =
     (case read_cfg s cfg of
        None \<Rightarrow> (s, Inl Dangling)
      | Some c \<Rightarrow>
          let current_depart = (case departure_time c of None \<Rightarrow> ''7:00'' | Some d \<Rightarrow> d)
          in case search_candidates_store
                    (\<lambda>s candidate. evaluate_departure_for_route_store h s contractor_configs
                        contractor route candidate empty_speed loaded_speed lookup
                        (Some contractor_configs) spacing)
                    s (current_depart, None) candidate_times of
               (s1, Inl e) \<Rightarrow> (s1, Inl e)
             | (s1, Inr (best_depart, best_total_wait)) \<Rightarrow>
                 optimise_routes_store h contractor_configs empty_speed loaded_speed
                   candidate_times lookup spacing contractor s1
                   (AList.update contractor
                      (AList.update route (current_depart, best_depart)
                         (dict_get_list recommended contractor)) recommended)
                   rest)"

fun optimise_contractors_store ::
  "hierarchy \<Rightarrow> addr \<Rightarrow> rat \<Rightarrow> rat \<Rightarrow> string list \<Rightarrow> route_time_lookup option \<Rightarrow> rat
     \<Rightarrow> store \<Rightarrow> recommended \<Rightarrow> (string \<times> addr) list \<Rightarrow> store \<times> (store_error + recommended)" where
  "optimise_contractors_store h contractor_configs empty_speed loaded_speed candidate_times
       lookup spacing s recommended [] = (s, Inr recommended)"
| "optimise_contractors_store h contractor_configs empty_speed loaded_speed candidate_times
       lookup spacing s recommended ((contractor, rs) # rest) =
     (let recommended =
            (if contractor \<in> fst ` set recommended then recommended
             else AList.update contractor [] recommended)
      in if rs < length (route_dicts s) then
           (case optimise_routes_store h contractor_configs empty_speed loaded_speed
                   candidate_times lookup spacing contractor s recommended (route_dicts s ! rs) of
              (s1, Inl e) \<Rightarrow> (s1, Inl e)
            | (s1, Inr recommended') \<Rightarrow>
                optimise_contractors_store h contractor_configs empty_speed loaded_speed
                  candidate_times lookup spacing s1 recommended' rest)
         else (s, Inl Dangling))"

text \<open>The second pass, on the working copy \<open>updated_config\<close>.\<close>

fun apply_route_times_store ::
  "addr \<Rightarrow> string \<Rightarrow> store \<Rightarrow> (string \<times> string \<times> string) list \<Rightarrow> store \<times> (store_error + unit)" where
  "apply_route_times_store updated_config contractor s [] = (s, Inr ())"
| "apply_route_times_store updated_config contractor s ((route, (current, optimal)) # rest) =
     (case set_departure_time_store s updated_config contractor route optimal of
        (s1, Inl e) \<Rightarrow> (s1, Inl e)
      | (s1, Inr u) \<Rightarrow> apply_route_times_store updated_config contractor s1 rest)"

fun apply_recommended_store ::
  "addr \<Rightarrow> store \<Rightarrow> recommended \<Rightarrow> store \<times> (store_error + unit)" where
  "apply_recommended_store updated_config s [] = (s, Inr ())"
| "apply_recommended_store updated_config s ((contractor, rs) # rest) =
     (case apply_route_times_store updated_config contractor s rs of
        (s1, Inl e) \<Rightarrow> (s1, Inl e)
      | (s1, Inr u) \<Rightarrow> apply_recommended_store updated_config s1 rest)"

definition simulate_wait_times_store ::
  "hierarchy \<Rightarrow> store \<Rightarrow> addr \<Rightarrow> rat \<Rightarrow> rat \<Rightarrow> route_time_lookup option \<Rightarrow> rat
     \<Rightarrow> store_error + (string \<times> rat) list \<times> detailed_events" where
  "simulate_wait_times_store h s contractor_configs empty_speed loaded_speed lookup spacing =
     (case read_config s contractor_configs of
        None \<Rightarrow> Inl Dangling
      | Some v \<Rightarrow> lift_result (simulate_wait_times h v empty_speed loaded_speed lookup spacing))"

definition optimise_departure_times_store ::
  "hierarchy \<Rightarrow> store \<Rightarrow> addr \<Rightarrow> rat \<Rightarrow> rat \<Rightarrow> string list \<Rightarrow> route_time_lookup option \<Rightarrow> rat
     \<Rightarrow> store \<times> (store_error + recommended \<times> (string \<times> rat) list \<times> (string \<times> rat) list)" where
  "optimise_departure_times_store h s contractor_configs empty_speed loaded_speed
       candidate_times lookup spacing =
     (case simulate_wait_times_store h s contractor_configs empty_speed loaded_speed lookup spacing of
        Inl e \<Rightarrow> (s, Inl e)
      | Inr (baseline_waits, detailed) \<Rightarrow>
          if contractor_configs < length (contractor_dicts s) then
            (case optimise_contractors_store h contractor_configs empty_speed loaded_speed
                    candidate_times lookup spacing s [] (contractor_dicts s ! contractor_configs) of
               (s1, Inl e) \<Rightarrow> (s1, Inl e)
             | (s1, Inr recommended) \<Rightarrow>
                 (case deepcopy s1 contractor_configs of
                    (s2, Inl e) \<Rightarrow> (s2, Inl e)
                  | (s2, Inr updated_config) \<Rightarrow>
                      (case apply_recommended_store updated_config s2 recommended of
                         (s3, Inl e) \<Rightarrow> (s3, Inl e)
                       | (s3, Inr u) \<Rightarrow>
                           (case simulate_wait_times_store h s3 updated_config empty_speed
                                   loaded_speed lookup spacing of
                              Inl e \<Rightarrow> (s3, Inl e)
                            | Inr (optimised_waits, detailed') \<Rightarrow>
                                (s3, Inr (recommended, baseline_waits, optimised_waits))))))
          else (s, Inl Dangling))"

text \<open>A store holding the configuration \<open>two_routes\<close> at address 0.\<close>

definition two_routes_store :: store where
  "two_routes_store =
     \<lparr>contractor_dicts = [[(''RIM'', 0), (''GMG'', 1)]],
      route_dicts = [[(''TF'', 0)], [(''KR'', 1)]],
      cfg_dicts =
        [\<lparr>loading_location = Some ''TF'', dumping_location = Some ''FENI U1 (LINE 65-66)'',
          departure_time = Some ''7:00'', number_of_trucks = Some 2\<rparr>,
         \<lparr>loading_location = Some ''KR'', dumping_location = Some ''FENI U1 (LINE 65-66)'',
          departure_time = Some ''7:00'', number_of_trucks = Some 2\<rparr>]\<rparr>"

text \<open>The part of a store that existed in an earlier store is unchanged.\<close>

definition preserves :: "store \<Rightarrow> store \<Rightarrow> bool" where
  "preserves s0 s \<longleftrightarrow>
     prefix (contractor_dicts s0) (contractor_dicts s)
     \<and> prefix (route_dicts s0) (route_dicts s)
     \<and> prefix (cfg_dicts s0) (cfg_dicts s)"

text \<open>
  Every route dictionary allocated at or after \<open>n_r\<close> refers only to route objects at or
  after \<open>n_c\<close>; every reference of a contractor dictionary is at or after \<open>n_r\<close>.
\<close>

definition closed_above :: "nat \<Rightarrow> nat \<Rightarrow> store \<Rightarrow> bool" where
  "closed_above n_r n_c s \<longleftrightarrow>
     (\<forall>ra. n_r \<le> ra \<and> ra < length (route_dicts s)
         \<longrightarrow> (\<forall>(k, ca) \<in> set (route_dicts s ! ra). n_c \<le> ca))"

definition refs_above :: "nat \<Rightarrow> (string \<times> addr) list \<Rightarrow> bool" where
  "refs_above n kvs \<longleftrightarrow> (\<forall>(k, a) \<in> set kvs. n \<le> a)"

definition memo_above :: "nat \<Rightarrow> memo \<Rightarrow> bool" where
  "memo_above n memo \<longleftrightarrow> (\<forall>(a, a') \<in> set memo. n \<le> a')"

section \<open>The queue simulator in IEEE double arithmetic\<close>

text \<open>
  Where a property is about the exact value of a float, the rounding is written out. A
  Python float is an IEEE binary64 number; every arithmetic operation returns the exact
  result rounded to the nearest number with a 53-bit significand, ties to even. The model
  covers the normal range (no overflow, no subnormal numbers): \<open>normalise\<close> scales the
  magnitude into \<open>[2^52, 2^53)\<close>, that is from 4503599627370496 up to 9007199254740992,
  where the representable numbers are the integers.
\<close>

fun normalise :: "nat \<Rightarrow> rat \<Rightarrow> int \<Rightarrow> rat \<times> int" where
  "normalise 0 m e = (m, e)"
| "normalise (Suc fuel) m e =
     (if m < 4503599627370496 then normalise fuel (m * 2) (e - 1)
      else if 9007199254740992 \<le> m then normalise fuel (m / 2) (e + 1)
      else (m, e))"

definition round_half_even :: "rat \<Rightarrow> int" where
  "round_half_even m =
     (let f = \<lfloor>m\<rfloor>; d = m - of_int f
      in if d < 1 / 2 then f
         else if 1 / 2 < d then f + 1
         else if even f then f else f + 1)"

definition fl :: "rat \<Rightarrow> rat" where
  "fl x =
     (if x = 0 then 0
      else case normalise 2200 \<bar>x\<bar> 0 of
             (m, e) \<Rightarrow>
               if 0 \<le> e then sgn x * of_int (round_half_even m) * 2 ^ nat e
               else sgn x * of_int (round_half_even m) / 2 ^ nat (- e))"

text \<open>\<open>multi_server_queue\<close> again, every arithmetic operation followed by rounding.\<close>

definition serve_fp :: "rat list \<times> rat \<Rightarrow> rat \<times> rat \<Rightarrow> (rat list \<times> rat) result" where
  "serve_fp st ev =
     (case st of (server_free_times, total_wait) \<Rightarrow>
      case ev of (arrival_time, service_time) \<Rightarrow>
      case py_min_key (\<lambda>i. server_free_times ! i) [0 ..< length server_free_times] of
        Inl e \<Rightarrow> Inl e
      | Inr idx \<Rightarrow>
          let wait = max 0 (fl (server_free_times ! idx - arrival_time));
              start_service = fl (arrival_time + wait)
          in Inr (server_free_times[idx := fl (start_service + service_time)],
                  fl (total_wait + wait)))"

fun serve_all_fp :: "rat list \<times> rat \<Rightarrow> (rat \<times> rat) list \<Rightarrow> (rat list \<times> rat) result" where
  "serve_all_fp st [] = Inr st"
| "serve_all_fp st (ev # evs) =
     (case serve_fp st ev of Inl e \<Rightarrow> Inl e | Inr st' \<Rightarrow> serve_all_fp st' evs)"

definition multi_server_queue_fp :: "(rat \<times> rat) list \<Rightarrow> int \<Rightarrow> (rat \<times> rat) result" where
  "multi_server_queue_fp arrivals num_servers =
     (if arrivals = [] then Inr (0, 0)
      else
        case serve_all_fp (replicate (nat (max 1 num_servers)) 0, 0) arrivals of
          Inl e \<Rightarrow> Inl e
        | Inr (server_free_times, total_wait) \<Rightarrow>
            (case py_max server_free_times of
               Inl e \<Rightarrow> Inl e
             | Inr end_time \<Rightarrow>
                 Inr (fl (fl (total_wait / of_nat (length arrivals)) * 60), end_time)))"

text \<open>The literals \<open>[(7.0, 0.1), (7.02, 0.1)]\<close> as floats.\<close>

definition two_trucks_fp :: "(rat \<times> rat) list" where
  "two_trucks_fp = [(fl 7, fl (1 / 10)), (fl (702 / 100), fl (1 / 10))]"

section \<open>Properties of the queue simulator\<close>

subsection \<open>The earliest free server\<close>

lemma min_by_key_mem: "min_by_key k best xs \<in> set (best # xs)"
  by (induction xs arbitrary: best) auto

lemma min_by_key_le: "y \<in> set (best # xs) \<Longrightarrow> k (min_by_key k best xs) \<le> k y"
proof (induction xs arbitrary: best y)
  case Nil
  then show ?case by simp
next
  case (Cons x xs)
  have step: "k (min_by_key k (if k x < k best then x else best) xs) \<le> k z"
    if "z \<in> set ((if k x < k best then x else best) # xs)" for z
    using Cons.IH that by blast
  have low: "k (min_by_key k (if k x < k best then x else best) xs)
               \<le> k (if k x < k best then x else best)"
    by (rule step) simp
  from Cons.prems consider "y = best" | "y = x" | "y \<in> set xs" by auto
  then show ?case
  proof cases
    case 1
    with low show ?thesis by (auto split: if_splits)
  next
    case 2
    with low show ?thesis by (auto split: if_splits)
  next
    case 3
    then show ?thesis using step [of y] by simp
  qed
qed

text \<open>On a non-empty pool a step never fails: it picks an index of a least free time.\<close>

lemma serve_nonempty:
  assumes "fs \<noteq> []"
  shows "\<exists>idx. idx < length fs \<and> (\<forall>v \<in> set fs. fs ! idx \<le> v) \<and>
           serve (fs, tw) (a, s) =
             Inr (fs[idx := a + max 0 (fs ! idx - a) + s], tw + max 0 (fs ! idx - a))"
proof -
  from assms have len: "0 < length fs" by simp
  then have range: "[0 ..< length fs] = 0 # [1 ..< length fs]"
    by (simp add: upt_conv_Cons)
  define idx where "idx = min_by_key (\<lambda>i. fs ! i) 0 [1 ..< length fs]"
  have "idx \<in> set (0 # [1 ..< length fs])"
    unfolding idx_def by (rule min_by_key_mem)
  with len have bound: "idx < length fs" by auto
  have least: "fs ! idx \<le> v" if "v \<in> set fs" for v
  proof -
    from that obtain j where j: "j < length fs" "fs ! j = v"
      by (auto simp: in_set_conv_nth)
    then have "j \<in> set (0 # [1 ..< length fs])" by auto
    then have "fs ! idx \<le> fs ! j"
      unfolding idx_def by (rule min_by_key_le)
    with j show ?thesis by simp
  qed
  have "serve (fs, tw) (a, s) =
          Inr (fs[idx := a + max 0 (fs ! idx - a) + s], tw + max 0 (fs ! idx - a))"
    by (simp add: serve_def py_min_key_def range idx_def Let_def)
  with bound least show ?thesis by blast
qed

subsection \<open>Counting free servers\<close>

lemma free_by_update:
  assumes "i < length fs"
  shows "free_by t (fs[i := x]) + (if fs ! i \<le> t then 1 else 0)
           = free_by t fs + (if x \<le> t then 1 else 0)"
proof -
  have a: "fs = take i fs @ fs ! i # drop (Suc i) fs"
    using assms by (rule id_take_nth_drop)
  have b: "fs[i := x] = take i fs @ x # drop (Suc i) fs"
    using assms by (rule upd_conv_take_nth_drop)
  have "free_by t fs = free_by t (take i fs) + (if fs ! i \<le> t then 1 else 0)
                         + free_by t (drop (Suc i) fs)"
    by (subst a) (simp add: free_by_def)
  moreover have "free_by t (fs[i := x]) = free_by t (take i fs) + (if x \<le> t then 1 else 0)
                         + free_by t (drop (Suc i) fs)"
    by (subst b) (simp add: free_by_def)
  ultimately show ?thesis by simp
qed

lemma free_by_pos: "v \<in> set fs \<Longrightarrow> v \<le> t \<Longrightarrow> 0 < free_by t fs"
  by (auto simp: free_by_def filter_empty_conv)

lemma free_by_zero: "(\<forall>v \<in> set fs. t < v) \<Longrightarrow> free_by t fs = 0"
  by (auto simp: free_by_def filter_empty_conv)

lemma free_by_replicate: "free_by t (replicate n 0) = (if 0 \<le> t then n else 0)"
  by (simp add: free_by_def)

lemma dominated_nonempty:
  assumes "\<forall>t. free_by t fs \<le> free_by t fs'" and "fs \<noteq> []"
  shows "fs' \<noteq> []"
proof -
  from assms(2) obtain v0 where v0: "v0 \<in> set fs" by (cases fs) auto
  have "0 < free_by v0 fs" using v0 by (rule free_by_pos) simp
  with assms(1) have "0 < free_by v0 fs'" by (metis less_le_trans)
  then show ?thesis by (auto simp: free_by_def)
qed

subsection \<open>A larger pool is never later\<close>

text \<open>
  If at every time the pool \<open>fs'\<close> has at least as many free servers as the pool \<open>fs\<close>,
  the same holds after both have served the same truck, and the truck waits no longer at
  \<open>fs'\<close>.
\<close>

lemma serve_mono:
  assumes dom: "\<forall>t. free_by t fs \<le> free_by t fs'"
    and ne: "fs \<noteq> []"
    and tw: "tw' \<le> tw"
  shows "\<exists>gs w gs' w'. serve (fs, tw) ev = Inr (gs, w) \<and> serve (fs', tw') ev = Inr (gs', w')
           \<and> (\<forall>t. free_by t gs \<le> free_by t gs') \<and> gs \<noteq> [] \<and> w' \<le> w"
proof -
  obtain a s where ev: "ev = (a, s)" by (cases ev)
  have ne': "fs' \<noteq> []" using dom ne by (rule dominated_nonempty)
  from serve_nonempty [OF ne, of tw a s] obtain i where
    i: "i < length fs" "\<forall>v \<in> set fs. fs ! i \<le> v"
       "serve (fs, tw) (a, s) = Inr (fs[i := a + max 0 (fs ! i - a) + s], tw + max 0 (fs ! i - a))"
    by blast
  from serve_nonempty [OF ne', of tw' a s] obtain j where
    j: "j < length fs'" "\<forall>v \<in> set fs'. fs' ! j \<le> v"
       "serve (fs', tw') (a, s) = Inr (fs'[j := a + max 0 (fs' ! j - a) + s], tw' + max 0 (fs' ! j - a))"
    by blast
  define m where "m = fs ! i"
  define m' where "m' = fs' ! j"
  have mm: "m' \<le> m"
  proof -
    have "m \<in> set fs" using i(1) by (simp add: m_def)
    then have "0 < free_by m fs" by (rule free_by_pos) simp
    with dom have "0 < free_by m fs'" by (metis less_le_trans)
    then obtain v where "v \<in> set fs'" "v \<le> m"
      by (auto simp: free_by_def filter_empty_conv)
    with j(2) show ?thesis unfolding m'_def by force
  qed
  define x where "x = a + max 0 (m - a) + s"
  define x' where "x' = a + max 0 (m' - a) + s"
  have xx: "x' \<le> x" using mm by (simp add: x_def x'_def max_def)
  have count: "free_by t (fs[i := x]) \<le> free_by t (fs'[j := x'])" for t
  proof -
    have e1: "free_by t (fs[i := x]) + (if m \<le> t then 1 else 0)
                = free_by t fs + (if x \<le> t then 1 else 0)"
      unfolding m_def using i(1) by (rule free_by_update)
    have e2: "free_by t (fs'[j := x']) + (if m' \<le> t then 1 else 0)
                = free_by t fs' + (if x' \<le> t then 1 else 0)"
      unfolding m'_def using j(1) by (rule free_by_update)
    have d: "free_by t fs \<le> free_by t fs'" using dom by simp
    show ?thesis
    proof (cases "m \<le> t")
      case True
      with mm have "m' \<le> t" by simp
      with True e1 e2 d xx show ?thesis by (auto split: if_splits)
    next
      case False
      then have "\<forall>v \<in> set fs. t < v" using i(2) by (fastforce simp: m_def)
      then have z: "free_by t fs = 0" by (rule free_by_zero)
      have p: "m' \<le> t \<Longrightarrow> 0 < free_by t fs'"
        using j(1) by (auto simp: m'_def intro: free_by_pos [of "fs' ! j"])
      from False e1 e2 z xx p show ?thesis by (auto split: if_splits)
    qed
  qed
  have "fs[i := x] \<noteq> []" using ne by simp
  moreover have "tw' + max 0 (m' - a) \<le> tw + max 0 (m - a)"
    using tw mm by (simp add: max_def)
  ultimately show ?thesis
    using i(3) j(3) count unfolding ev m_def m'_def x_def x'_def by blast
qed

lemma serve_all_mono:
  assumes "\<forall>t. free_by t fs \<le> free_by t fs'" and "fs \<noteq> []" and "tw' \<le> tw"
  shows "\<exists>gs w gs' w'. serve_all (fs, tw) evs = Inr (gs, w) \<and> serve_all (fs', tw') evs = Inr (gs', w')
           \<and> gs \<noteq> [] \<and> gs' \<noteq> [] \<and> w' \<le> w"
  using assms
proof (induction evs arbitrary: fs fs' tw tw')
  case Nil
  have "fs' \<noteq> []" using Nil(1) Nil(2) by (rule dominated_nonempty)
  with Nil show ?case by simp
next
  case (Cons ev evs)
  from serve_mono [OF Cons.prems, of ev] obtain gs w gs' w' where
    s: "serve (fs, tw) ev = Inr (gs, w)" "serve (fs', tw') ev = Inr (gs', w')"
       "\<forall>t. free_by t gs \<le> free_by t gs'" "gs \<noteq> []" "w' \<le> w"
    by blast
  from Cons.IH [OF s(3) s(4) s(5)] s(1) s(2) show ?case by simp
qed

lemma py_max_nonempty: "fs \<noteq> [] \<Longrightarrow> \<exists>e. py_max fs = Inr e"
  by (cases fs) (simp_all add: py_max_def)

lemma serve_all_returns:
  assumes "fs \<noteq> []"
  shows "\<exists>gs w. serve_all (fs, tw) evs = Inr (gs, w) \<and> gs \<noteq> []"
proof -
  have "\<forall>t. free_by t fs \<le> free_by t fs" by simp
  from serve_all_mono [OF this assms order_refl, of tw evs] show ?thesis by blast
qed

text \<open>
  C6. Server-count monotonicity: for every list of arrivals and all server counts
  \<open>m \<le> n\<close>, \<open>multi_server_queue\<close> returns with both counts, and the average wait with
  \<open>n\<close> servers is at most the average wait with \<open>m\<close> servers. Neither the order of the
  arrivals nor \<open>1 \<le> m\<close> is needed.
\<close>

theorem multi_server_queue_monotone:
  assumes "m \<le> n"
  shows "\<exists>wm em wn en. multi_server_queue arrivals m = Inr (wm, em)
           \<and> multi_server_queue arrivals n = Inr (wn, en) \<and> wn \<le> wm"
proof (cases "arrivals = []")
  case True
  then show ?thesis by (simp add: multi_server_queue_def)
next
  case False
  let ?m = "nat (max 1 m)" and ?n = "nat (max 1 n)"
  have mn: "?m \<le> ?n" using assms by simp
  have dom: "\<forall>t. free_by t (replicate ?m 0) \<le> free_by t (replicate ?n 0)"
    using mn by (simp add: free_by_replicate)
  have ne: "replicate ?m (0::rat) \<noteq> []" by simp
  from serve_all_mono [OF dom ne order_refl, of 0 arrivals] obtain gs w gs' w' where
    r: "serve_all (replicate ?m 0, 0) arrivals = Inr (gs, w)"
       "serve_all (replicate ?n 0, 0) arrivals = Inr (gs', w')"
       "gs \<noteq> []" "gs' \<noteq> []" "w' \<le> w"
    by blast
  from py_max_nonempty [OF r(3)] obtain e where e: "py_max gs = Inr e" ..
  from py_max_nonempty [OF r(4)] obtain e' where e': "py_max gs' = Inr e'" ..
  have "w' / of_nat (length arrivals) * 60 \<le> w / of_nat (length arrivals) * 60"
    using r(5) by (simp add: divide_right_mono)
  with False r(1) r(2) e e' show ?thesis
    by (simp add: multi_server_queue_def)
qed

theorem multi_server_queue_monotone_witness:
  "(1::int) \<le> 2 \<and>
   (\<exists>wm em wn en. multi_server_queue [(7, 1 / 10), (702 / 100, 1 / 10)] 1 = Inr (wm, em)
      \<and> multi_server_queue [(7, 1 / 10), (702 / 100, 1 / 10)] 2 = Inr (wn, en) \<and> wn \<le> wm)"
  using multi_server_queue_monotone [of 1 2 "[(7, 1 / 10), (702 / 100, 1 / 10)]"] by simp

subsection \<open>The two-truck scenario, exactly and in double arithmetic\<close>

lemma normalise_numeral:
  "normalise (numeral k) m e =
     (if m < 4503599627370496 then normalise (pred_numeral k) (m * 2) (e - 1)
      else if 9007199254740992 \<le> m then normalise (pred_numeral k) (m / 2) (e + 1)
      else (m, e))"
  by (simp add: numeral_eq_Suc)

lemma floor_rat_numeral_div:
  "\<lfloor>(numeral a :: rat) / numeral b\<rfloor> = numeral a div numeral b"
  by (metis floor_divide_of_int_eq of_int_numeral)

lemmas fl_eval = fl_def round_half_even_def normalise_numeral Let_def floor_rat_numeral_div

lemma two_trucks_fp_value:
  "two_trucks_fp =
     [(7, 3602879701896397 / 36028797018963968),
      (1975954336508805 / 281474976710656, 3602879701896397 / 36028797018963968)]"
  by (simp add: two_trucks_fp_def fl_eval)

lemma fl_two_point_four: "fl (24 / 10) = 5404319552844595 / 2251799813685248"
  by (simp add: fl_eval)

lemma multi_server_queue_fp_two_trucks:
  "multi_server_queue_fp two_trucks_fp 1
     = Inr (675539944105575 / 281474976710656, 2026619832316723 / 281474976710656)"
  unfolding two_trucks_fp_value
  by (simp add: multi_server_queue_fp_def serve_fp_def py_min_key_def py_max_def fl_eval)

text \<open>
  C7, as stated. With the floats of the source the second truck waits
  \<open>(7.0 + 0.1) - 7.02\<close>, which rounds to a number slightly above 0.08, and the average wait
  returned is not the float 2.4 but the float five units in the last place above it
  (printed by Python as 2.400000000000002).
\<close>

theorem multi_server_queue_two_trucks_not_exact:
  "multi_server_queue_fp two_trucks_fp 1
     = Inr (675539944105575 / 281474976710656, 2026619832316723 / 281474976710656)
   \<and> fl (24 / 10) = 5404319552844595 / 2251799813685248
   \<and> (675539944105575 / 281474976710656 :: rat) \<noteq> fl (24 / 10)"
  unfolding fl_two_point_four multi_server_queue_fp_two_trucks by simp

text \<open>
  C7, amended. The two trucks arriving at 7.0 and 7.02 hours, each with a service time of
  0.1 hours, at one server: in exact arithmetic the first waits 0, the second 0.08 hours,
  and the average wait is exactly 2.4 minutes; in double arithmetic the average wait
  returned is within \<open>10^-14\<close> of 2.4.
\<close>

theorem multi_server_queue_two_trucks:
  "multi_server_queue [(7, 1 / 10), (702 / 100, 1 / 10)] 1 = Inr (24 / 10, 72 / 10)
   \<and> (\<exists>w e. multi_server_queue_fp two_trucks_fp 1 = Inr (w, e)
          \<and> \<bar>w - 24 / 10\<bar> < 1 / 10 ^ 14)"
proof -
  have "multi_server_queue [(7, 1 / 10), (702 / 100, 1 / 10)] 1 = Inr (24 / 10, 72 / 10)"
    by (simp add: multi_server_queue_def serve_def py_min_key_def py_max_def)
  moreover have "\<bar>(675539944105575 / 281474976710656 :: rat) - 24 / 10\<bar> < 1 / 10 ^ 14"
    by simp
  ultimately show ?thesis
    using multi_server_queue_fp_two_trucks by blast
qed

text \<open>
  C10. For every list of arrivals and every integer \<open>num_servers\<close>, \<open>multi_server_queue\<close>
  returns a result; the pool has \<open>max(1, num_servers)\<close> servers, so a count of zero or
  less gives exactly the result of one server.
\<close>

theorem multi_server_queue_clamped:
  "(\<exists>r. multi_server_queue arrivals num_servers = Inr r)
   \<and> multi_server_queue arrivals num_servers = multi_server_queue arrivals (max 1 num_servers)
   \<and> (num_servers \<le> 0 \<longrightarrow>
        multi_server_queue arrivals num_servers = multi_server_queue arrivals 1)"
proof -
  have ret: "\<exists>r. multi_server_queue arrivals num_servers = Inr r"
  proof (cases "arrivals = []")
    case True
    then show ?thesis by (simp add: multi_server_queue_def)
  next
    case False
    have "replicate (nat (max 1 num_servers)) (0::rat) \<noteq> []" by simp
    from serve_all_returns [OF this, of 0 arrivals] obtain gs w where
      r: "serve_all (replicate (nat (max 1 num_servers)) 0, 0) arrivals = Inr (gs, w)" "gs \<noteq> []"
      by blast
    from py_max_nonempty [OF r(2)] obtain e where "py_max gs = Inr e" ..
    with False r(1) show ?thesis by (simp add: multi_server_queue_def)
  qed
  have clamp: "multi_server_queue arrivals num_servers
                 = multi_server_queue arrivals (max 1 num_servers)"
    by (simp add: multi_server_queue_def)
  have "max 1 num_servers = 1" if "num_servers \<le> 0"
    using that by simp
  with ret clamp show ?thesis by metis
qed

theorem multi_server_queue_clamped_witness:
  "(-3::int) \<le> 0
   \<and> multi_server_queue [(7, 1 / 10), (702 / 100, 1 / 10)] (-3)
       = multi_server_queue [(7, 1 / 10), (702 / 100, 1 / 10)] 1
   \<and> multi_server_queue [(7, 1 / 10), (702 / 100, 1 / 10)] (-3) = Inr (24 / 10, 72 / 10)"
proof -
  have "multi_server_queue [(7, 1 / 10), (702 / 100, 1 / 10)] 1 = Inr (24 / 10, 72 / 10)"
    by (simp add: multi_server_queue_def serve_def py_min_key_def py_max_def)
  with multi_server_queue_clamped [of "[(7, 1 / 10), (702 / 100, 1 / 10)]" "-3"]
  show ?thesis by simp
qed

section \<open>Properties of the server-count derivations\<close>

text \<open>
  C1. For the two macro-zone names of the hierarchy \<open>get_server_count\<close> returns the
  fallback 2, although the sub-points of the zones have 60 and 8 lines in total: the
  branch that sums the lines of a zone is entered only when
  \<open>get_main_feni_from_sub_point\<close> finds the name among the sub-points, and a zone name is
  not a sub-point.
\<close>

theorem get_server_count_zone_names:
  "get_server_count FENI_DUMP_POINTS ''FENI KM 0'' = 2
   \<and> max 1 (sum_zone_lines 0 FENI_KM_0_sub_points) = 60
   \<and> get_server_count FENI_DUMP_POINTS ''FENI KM 15'' = 2
   \<and> max 1 (sum_zone_lines 0 FENI_KM_15_sub_points) = 8"
proof -
  have a: "get_server_count FENI_DUMP_POINTS ''FENI KM 0'' = 2"
    by (simp add: get_server_count_def FENI_DUMP_POINTS_def FENI_KM_0_sub_points_def
        FENI_KM_15_sub_points_def)
  have b: "get_server_count FENI_DUMP_POINTS ''FENI KM 15'' = 2"
    by (simp add: get_server_count_def FENI_DUMP_POINTS_def FENI_KM_0_sub_points_def
        FENI_KM_15_sub_points_def)
  have c: "max 1 (sum_zone_lines 0 FENI_KM_0_sub_points) = 60"
    by code_simp
  have d: "max 1 (sum_zone_lines 0 FENI_KM_15_sub_points) = 8"
    by code_simp
  from a b c d show ?thesis by simp
qed

subsection \<open>Malformed line ranges\<close>

lemma malformed_parse_line_range:
  "\<not> well_formed_range l \<Longrightarrow> parse_line_range l \<noteq> Inr (Some n)"
  by (auto simp: well_formed_range_def parse_line_range_def is_int_literal_def
      split: list.splits sum.splits)

lemma malformed_unpack_lo_hi:
  "\<not> well_formed_range l \<Longrightarrow> lines sp = Some l \<Longrightarrow> \<exists>e. unpack_lo_hi sp = Inl e"
  by (auto simp: well_formed_range_def unpack_lo_hi_def is_int_literal_def
      split: list.splits sum.splits)

lemma map_of_Some_in_keys: "map_of xs k = Some v \<Longrightarrow> k \<in> fst ` set xs"
  by (metis map_of_eq_None_iff option.distinct(1))

lemma explicit_server_count_malformed:
  assumes "(z, cfg) \<in> set h"
    and "\<forall>(z', cfg') \<in> set h. name \<in> fst ` set (sub_points cfg') \<longrightarrow> (z', cfg') = (z, cfg)"
    and "map_of (sub_points cfg) name = Some sp"
    and "\<forall>n. parse_line_range (line_str_of sp) \<noteq> Inr (Some n)"
  shows "explicit_server_count h name = Some 1"
  using assms(1,2)
proof (induction h)
  case Nil
  then show ?case by simp
next
  case (Cons entry h)
  obtain z' cfg' where entry: "entry = (z', cfg')" by (cases entry)
  show ?case
  proof (cases "(z', cfg') = (z, cfg)")
    case True
    with entry assms(3,4) show ?thesis
      by (auto split: sum.splits option.splits)
  next
    case False
    with Cons.prems(2) entry have "name \<notin> fst ` set (sub_points cfg')" by auto
    then have none: "map_of (sub_points cfg') name = None"
      by (simp add: map_of_eq_None_iff)
    from False Cons.prems(1) entry have "(z, cfg) \<in> set h" by auto
    moreover from Cons.prems(2) have
      "\<forall>(z', cfg') \<in> set h. name \<in> fst ` set (sub_points cfg') \<longrightarrow> (z', cfg') = (z, cfg)"
      by auto
    ultimately have "explicit_server_count h name = Some 1" by (rule Cons.IH)
    with entry none show ?thesis by simp
  qed
qed

lemma get_main_feni_unique:
  assumes "(z, cfg) \<in> set h"
    and "\<forall>(z', cfg') \<in> set h. name \<in> fst ` set (sub_points cfg') \<longrightarrow> (z', cfg') = (z, cfg)"
    and "name \<in> fst ` set (sub_points cfg)"
  shows "get_main_feni_from_sub_point h name = Some z"
  using assms(1,2)
proof (induction h)
  case Nil
  then show ?case by simp
next
  case (Cons entry h)
  obtain z' cfg' where entry: "entry = (z', cfg')" by (cases entry)
  show ?case
  proof (cases "(z', cfg') = (z, cfg)")
    case True
    with entry assms(3) show ?thesis by simp
  next
    case False
    with Cons.prems(2) entry have notin: "name \<notin> fst ` set (sub_points cfg')" by auto
    from False Cons.prems(1) entry have "(z, cfg) \<in> set h" by auto
    moreover from Cons.prems(2) have
      "\<forall>(z', cfg') \<in> set h. name \<in> fst ` set (sub_points cfg') \<longrightarrow> (z', cfg') = (z, cfg)"
      by auto
    ultimately have "get_main_feni_from_sub_point h name = Some z" by (rule Cons.IH)
    with entry notin show ?thesis by simp
  qed
qed

text \<open>
  C8. A sub-point whose line range is not of the form \<open>lo-hi\<close> with integers \<open>lo\<close> and
  \<open>hi\<close>: \<open>get_server_count\<close> returns 1, but \<open>_num_servers_for\<close>, the derivation that
  \<open>simulate_wait_times\<close> uses, raises. The hierarchy is any dictionary (distinct zone
  names) in which the sub-point belongs to one zone, with a non-empty name.
\<close>

theorem malformed_range_server_counts:
  assumes "distinct (map fst h)"
    and "(z, cfg) \<in> set h"
    and "z \<noteq> []" and "name \<noteq> []"
    and "\<forall>(z', cfg') \<in> set h. name \<in> fst ` set (sub_points cfg') \<longrightarrow> (z', cfg') = (z, cfg)"
    and "map_of (sub_points cfg) name = Some sp"
    and "lines sp = Some l"
    and "\<not> well_formed_range l"
  shows "get_server_count h name = 1 \<and> (\<exists>e. num_servers_for h name = Inl e)"
proof -
  have bad: "\<forall>n. parse_line_range (line_str_of sp) \<noteq> Inr (Some n)"
    using assms(7,8) by (simp add: line_str_of_def malformed_parse_line_range)
  have "explicit_server_count h name = Some 1"
    using assms(2,5,6) bad by (rule explicit_server_count_malformed)
  then have first: "get_server_count h name = 1"
    using assms(4) by (simp add: get_server_count_def)
  have "name \<in> fst ` set (sub_points cfg)"
    using assms(6) by (rule map_of_Some_in_keys)
  with assms(2,5) have main: "get_main_feni_from_sub_point h name = Some z"
    by (rule get_main_feni_unique)
  have zone: "map_of h z = Some cfg"
    using assms(1,2) by (rule map_of_is_SomeI)
  from malformed_unpack_lo_hi [OF assms(8,7)] obtain e where "unpack_lo_hi sp = Inl e" ..
  with main zone assms(3,6) have "num_servers_for h name = Inl e"
    by (simp add: num_servers_for_def)
  with first show ?thesis by blast
qed

theorem malformed_range_server_counts_witness:
  "get_server_count malformed_hierarchy ''FENI A (LINE 1-2)'' = 1
   \<and> (\<exists>e. num_servers_for malformed_hierarchy ''FENI A (LINE 1-2)'' = Inl e)
   \<and> simulate_wait_times malformed_hierarchy (one_route ''7:00'') 25 25 None (2 / 100)
       = Inl ValueError"
proof -
  have "get_server_count malformed_hierarchy ''FENI A (LINE 1-2)'' = 1
     \<and> (\<exists>e. num_servers_for malformed_hierarchy ''FENI A (LINE 1-2)'' = Inl e)"
  proof (rule malformed_range_server_counts
      [where z = "''FENI KM 0''" and l = "''1 to 2''"
         and sp = "\<lparr>lines = Some ''1 to 2'', priority = 1\<rparr>"
         and cfg = "\<lparr>location_code = ''FENI KM0'', distance_base = ''FENI KM0'',
           sub_points = [(''FENI A (LINE 1-2)'', \<lparr>lines = Some ''1 to 2'', priority = 1\<rparr>)]\<rparr>"])
    show "distinct (map fst malformed_hierarchy)" by (simp add: malformed_hierarchy_def)
    show "\<not> well_formed_range ''1 to 2''"
      by (simp add: well_formed_range_def is_int_literal_def py_int_def strip_def is_space_def
          is_digit_def)
  qed (simp_all add: malformed_hierarchy_def)
  moreover have "simulate_wait_times malformed_hierarchy (one_route ''7:00'') 25 25 None (2 / 100)
       = Inl ValueError"
    by code_simp
  ultimately show ?thesis by simp
qed

section \<open>Properties of the zone aggregation\<close>

lemma get_main_feni_in_keys:
  "get_main_feni_from_sub_point h sp = Some z \<Longrightarrow> z \<in> fst ` set h"
  by (induction h) (auto split: if_splits)

lemma FENI_zone_names:
  "get_main_feni_from_sub_point FENI_DUMP_POINTS sp = Some z \<Longrightarrow> z = ''FENI KM 0'' \<or> z = ''FENI KM 15''"
  by (drule get_main_feni_in_keys) (auto simp: FENI_DUMP_POINTS_def)

lemma zone_totals_two_zones:
  assumes "\<And>sp z. get_main_feni_from_sub_point h sp = Some z \<Longrightarrow> z = ''FENI KM 0'' \<or> z = ''FENI KM 15''"
  shows "zone_totals h trucks ([(''FENI KM 0'', a0), (''FENI KM 15'', a15)],
                               [(''FENI KM 0'', n0), (''FENI KM 15'', n15)]) xs
         = Inr ([(''FENI KM 0'', a0 + spec_zone_numerator h xs trucks ''FENI KM 0''),
                 (''FENI KM 15'', a15 + spec_zone_numerator h xs trucks ''FENI KM 15'')],
                [(''FENI KM 0'', n0 + spec_zone_trucks h xs trucks ''FENI KM 0''),
                 (''FENI KM 15'', n15 + spec_zone_trucks h xs trucks ''FENI KM 15'')])"
proof (induction xs arbitrary: a0 a15 n0 n15)
  case Nil
  then show ?case
    by (simp add: spec_zone_numerator_def spec_zone_trucks_def zone_members_def)
next
  case (Cons x xs)
  obtain sp w where x: "x = (sp, w)" by (cases x)
  show ?case
  proof (cases "get_main_feni_from_sub_point h sp")
    case None
    with x Cons.IH show ?thesis
      by (simp add: spec_zone_numerator_def spec_zone_trucks_def zone_members_def)
  next
    case (Some z)
    with assms consider "z = ''FENI KM 0''" | "z = ''FENI KM 15''" by blast
    then show ?thesis
    proof cases
      case 1
      with x Some Cons.IH show ?thesis
        by (simp add: spec_zone_numerator_def spec_zone_trucks_def zone_members_def
            dict_add_def Let_def)
    next
      case 2
      with x Some Cons.IH show ?thesis
        by (simp add: spec_zone_numerator_def spec_zone_trucks_def zone_members_def
            dict_add_def Let_def)
    qed
  qed
qed

text \<open>
  C5. For every mapping of sub-point average waits and every mapping of truck counts, the
  two reported zone averages are the truck-weighted averages of the specification: the
  sum of wait times count over the sub-points of the zone, divided by the zone's truck
  total when it is positive, and exactly 0 otherwise. The instance below is the zone with
  waits 10 and 20 minutes and 1 and 3 trucks: 17.5 minutes.
\<close>

theorem aggregate_zones_weighted:
  "aggregate_zones FENI_DUMP_POINTS subpoint_waits trucks =
     Inr [(''FENI KM 0'', spec_zone_average FENI_DUMP_POINTS subpoint_waits trucks ''FENI KM 0''),
          (''FENI KM 15'', spec_zone_average FENI_DUMP_POINTS subpoint_waits trucks ''FENI KM 15'')]"
  by (simp add: aggregate_zones_def zone_totals_two_zones [OF FENI_zone_names]
      zone_average_def spec_zone_average_def)

theorem aggregate_zones_weighted_witness:
  "aggregate_zones FENI_DUMP_POINTS
     [(''FENI A (LINE 1-2)'', 10), (''FENI A (LINE 3-4)'', 20)]
     [(''FENI A (LINE 1-2)'', 1), (''FENI A (LINE 3-4)'', 3)]
   = Inr [(''FENI KM 0'', 35 / 2), (''FENI KM 15'', 0)]"
proof -
  have m1: "get_main_feni_from_sub_point FENI_DUMP_POINTS ''FENI A (LINE 1-2)'' = Some ''FENI KM 0''"
    by (simp add: FENI_DUMP_POINTS_def FENI_KM_0_sub_points_def)
  have m2: "get_main_feni_from_sub_point FENI_DUMP_POINTS ''FENI A (LINE 3-4)'' = Some ''FENI KM 0''"
    by (simp add: FENI_DUMP_POINTS_def FENI_KM_0_sub_points_def)
  show ?thesis
    unfolding aggregate_zones_weighted
    by (simp add: spec_zone_average_def spec_zone_trucks_def spec_zone_numerator_def
        zone_members_def m1 m2 dict_get_int_def)
qed

section \<open>Properties of the arrival event builder\<close>

text \<open>
  C2. A departure time with one colon whose parts are not integers, such as \<open>ab:cd\<close>:
  \<open>int\<close> raises inside the \<open>try\<close> block, the \<open>except\<close> clause skips the route, and the
  route has no arrival events at all. Only a string that does not split into exactly two
  parts, such as \<open>abc\<close>, gets the default 7.0 and the events of a departure at \<open>7:00\<close>.
\<close>

theorem build_arrival_events_unparsable:
  "parse_departure ''ab:cd'' = Inl ValueError
   \<and> build_arrival_events FENI_DUMP_POINTS (one_route ''ab:cd'') 25 25 None (2 / 100) = ([], [])
   \<and> build_arrival_events FENI_DUMP_POINTS (one_route ''abc'') 25 25 None (2 / 100)
       = build_arrival_events FENI_DUMP_POINTS (one_route ''7:00'') 25 25 None (2 / 100)
   \<and> fst (build_arrival_events FENI_DUMP_POINTS (one_route ''7:00'') 25 25 None (2 / 100))
       = [(''FENI A (LINE 1-2)'', [(1057 / 100, 1 / 10), (1059 / 100, 1 / 10)])]"
proof -
  have a: "parse_departure ''ab:cd'' = Inl ValueError"
    by code_simp
  have b: "build_arrival_events FENI_DUMP_POINTS (one_route ''ab:cd'') 25 25 None (2 / 100) = ([], [])"
    by code_simp
  have c: "build_arrival_events FENI_DUMP_POINTS (one_route ''abc'') 25 25 None (2 / 100)
       = build_arrival_events FENI_DUMP_POINTS (one_route ''7:00'') 25 25 None (2 / 100)"
    by code_simp
  have d: "fst (build_arrival_events FENI_DUMP_POINTS (one_route ''7:00'') 25 25 None (2 / 100))
       = [(''FENI A (LINE 1-2)'', [(1057 / 100, 1 / 10), (1059 / 100, 1 / 10)])]"
    by code_simp
  from a b c d show ?thesis by simp
qed

section \<open>Properties of the departure-time optimiser\<close>







subsection \<open>The search over the candidates\<close>

lemma search_candidates_best:
  assumes "search_candidates eval (b, bo) cands = Inr (best, bt)"
    and "\<And>tb0. bo = Some tb0 \<Longrightarrow> \<exists>wb. eval b = Inr (tb0, wb)"
  shows "(\<forall>tb. bt = Some tb \<longrightarrow> (\<exists>wb. eval best = Inr (tb, wb)))
         \<and> (\<forall>x \<in> set cands. \<exists>tx wx tb. eval x = Inr (tx, wx) \<and> bt = Some tb \<and> tb \<le> tx)
         \<and> (\<forall>tb0. bo = Some tb0 \<longrightarrow> (\<exists>tb. bt = Some tb \<and> tb \<le> tb0))"
  using assms
proof (induction cands arbitrary: b bo)
  case Nil
  then show ?case by auto
next
  case (Cons x cands)
  from Cons.prems(1) obtain tx wx where ex: "eval x = Inr (tx, wx)"
    by (auto split: sum.splits)
  define nb where "nb = (if (case bo of None \<Rightarrow> True | Some b0 \<Rightarrow> tx < b0)
                         then (x, Some tx) else (b, bo))"
  have run: "search_candidates eval (fst nb, snd nb) cands = Inr (best, bt)"
    using Cons.prems(1) ex by (simp add: nb_def)
  have inv: "\<exists>wb. eval (fst nb) = Inr (tb0, wb)" if "snd nb = Some tb0" for tb0
    using that ex Cons.prems(2) by (auto simp: nb_def split: if_splits)
  from Cons.IH [OF run inv] have
    ih1: "\<forall>tb. bt = Some tb \<longrightarrow> (\<exists>wb. eval best = Inr (tb, wb))" and
    ih2: "\<forall>y \<in> set cands. \<exists>ty wy tb. eval y = Inr (ty, wy) \<and> bt = Some tb \<and> tb \<le> ty" and
    ih3: "\<forall>tb0. snd nb = Some tb0 \<longrightarrow> (\<exists>tb. bt = Some tb \<and> tb \<le> tb0)"
    by blast+
  have nb_le: "\<exists>t1. snd nb = Some t1 \<and> t1 \<le> tx \<and> (\<forall>tb0. bo = Some tb0 \<longrightarrow> t1 \<le> tb0)"
    by (cases bo) (auto simp: nb_def)
  then obtain t1 where t1: "snd nb = Some t1" "t1 \<le> tx" "\<forall>tb0. bo = Some tb0 \<longrightarrow> t1 \<le> tb0"
    by blast
  from ih3 t1(1) obtain tb where tb: "bt = Some tb" "tb \<le> t1" by blast
  have "\<exists>tx' wx' tb'. eval x = Inr (tx', wx') \<and> bt = Some tb' \<and> tb' \<le> tx'"
    using ex tb t1(2) by force
  moreover have "\<forall>tb0. bo = Some tb0 \<longrightarrow> (\<exists>tb. bt = Some tb \<and> tb \<le> tb0)"
    using tb t1(3) by force
  ultimately show ?case using ih1 ih2 by simp
qed

lemma search_candidates_eval_ok:
  assumes "search_candidates (ev c r) (cur, None) cands = Inr (best, bt)"
  shows "eval_ok ev cands c r best"
proof (cases "cands = []")
  case True
  then show ?thesis by (simp add: eval_ok_def)
next
  case False
  then obtain x where x: "x \<in> set cands" by (cases cands) auto
  from search_candidates_best [OF assms] have
    a: "\<forall>tb. bt = Some tb \<longrightarrow> (\<exists>wb. ev c r best = Inr (tb, wb))" and
    b: "\<forall>x \<in> set cands. \<exists>tx wx tb. ev c r x = Inr (tx, wx) \<and> bt = Some tb \<and> tb \<le> tx"
    by simp_all
  from b x obtain tb where tb: "bt = Some tb" by blast
  with a obtain wb where "ev c r best = Inr (tb, wb)" by blast
  moreover have "\<forall>x \<in> set cands. \<exists>tx wx. ev c r x = Inr (tx, wx) \<and> tb \<le> tx"
    using b tb by force
  ultimately show ?thesis by (auto simp: eval_ok_def)
qed

lemma good_rec_update:
  assumes "good_rec ev cands rec" and "eval_ok ev cands c r best"
  shows "good_rec ev cands
           (AList.update c (AList.update r (cur, best) (dict_get_list rec c)) rec)"
  unfolding good_rec_def
proof (intro allI impI)
  fix c' rs r' cur' best'
  assume 1: "map_of (AList.update c (AList.update r (cur, best) (dict_get_list rec c)) rec) c' = Some rs"
    and 2: "map_of rs r' = Some (cur', best')"
  show "eval_ok ev cands c' r' best'"
  proof (cases "c' = c")
    case False
    with 1 have "map_of rec c' = Some rs" by (simp add: update_conv')
    with 2 assms(1) show ?thesis unfolding good_rec_def by blast
  next
    case True
    with 1 have rs: "rs = AList.update r (cur, best) (dict_get_list rec c)"
      by (simp add: update_conv')
    show ?thesis
    proof (cases "r' = r")
      case True
      with 2 rs have "best' = best" by (simp add: update_conv')
      with True \<open>c' = c\<close> assms(2) show ?thesis by simp
    next
      case False
      with 2 rs have old: "map_of (dict_get_list rec c) r' = Some (cur', best')"
        by (simp add: update_conv')
      then obtain rs0 where "map_of rec c = Some rs0" "map_of rs0 r' = Some (cur', best')"
        by (cases "map_of rec c") (auto simp: dict_get_list_def)
      with assms(1) \<open>c' = c\<close> show ?thesis unfolding good_rec_def by blast
    qed
  qed
qed

lemma optimise_routes_good:
  assumes "optimise_routes h cc es ls cands lk sp c rec rs = Inr rec'"
    and "good_rec (\<lambda>c r x. evaluate_departure_for_route h cc c r x es ls lk (Some cc) sp) cands rec"
  shows "good_rec (\<lambda>c r x. evaluate_departure_for_route h cc c r x es ls lk (Some cc) sp) cands rec'"
  using assms
proof (induction rs arbitrary: rec)
  case Nil
  then show ?case by simp
next
  case (Cons entry rs)
  let ?ev = "\<lambda>c r x. evaluate_departure_for_route h cc c r x es ls lk (Some cc) sp"
  obtain r cfg where entry: "entry = (r, cfg)" by (cases entry)
  define cur where "cur = (case departure_time cfg of None \<Rightarrow> ''7:00'' | Some d \<Rightarrow> d)"
  from Cons.prems(1) entry obtain best bt where
    s: "search_candidates (?ev c r) (cur, None) cands = Inr (best, bt)"
    and rest: "optimise_routes h cc es ls cands lk sp c
                 (AList.update c (AList.update r (cur, best) (dict_get_list rec c)) rec) rs = Inr rec'"
    by (auto simp: cur_def Let_def split: sum.splits)
  from s have "eval_ok ?ev cands c r best" by (rule search_candidates_eval_ok)
  with Cons.prems(2) have "good_rec ?ev cands
      (AList.update c (AList.update r (cur, best) (dict_get_list rec c)) rec)"
    by (rule good_rec_update)
  with rest show ?case by (rule Cons.IH)
qed

lemma good_rec_new_contractor:
  assumes "good_rec ev cands rec"
  shows "good_rec ev cands (if c \<in> fst ` set rec then rec else AList.update c [] rec)"
  using assms unfolding good_rec_def
  by (auto simp: update_conv' split: if_splits)

lemma optimise_contractors_good:
  assumes "optimise_contractors h cc es ls cands lk sp rec cs = Inr rec'"
    and "good_rec (\<lambda>c r x. evaluate_departure_for_route h cc c r x es ls lk (Some cc) sp) cands rec"
  shows "good_rec (\<lambda>c r x. evaluate_departure_for_route h cc c r x es ls lk (Some cc) sp) cands rec'"
  using assms
proof (induction cs arbitrary: rec)
  case Nil
  then show ?case by simp
next
  case (Cons entry cs)
  let ?ev = "\<lambda>c r x. evaluate_departure_for_route h cc c r x es ls lk (Some cc) sp"
  obtain c rs where entry: "entry = (c, rs)" by (cases entry)
  define rec0 where "rec0 = (if c \<in> fst ` set rec then rec else AList.update c [] rec)"
  from Cons.prems(1) entry obtain rec1 where
    a: "optimise_routes h cc es ls cands lk sp c rec0 rs = Inr rec1"
    and b: "optimise_contractors h cc es ls cands lk sp rec1 cs = Inr rec'"
    by (auto simp: rec0_def Let_def split: sum.splits)
  have "good_rec ?ev cands rec0"
    unfolding rec0_def using Cons.prems(2) by (rule good_rec_new_contractor)
  with a have "good_rec ?ev cands rec1" by (rule optimise_routes_good)
  with b show ?case by (rule Cons.IH)
qed

subsection \<open>Every route gets its recommendation\<close>

lemma rec_of_alt: "rec_of rec c r = map_of (dict_get_list rec c) r"
  by (simp add: rec_of_def dict_get_list_def split: option.splits)

lemma rec_of_update:
  "rec_of (AList.update c (AList.update r v (dict_get_list rec c)) rec) c' r'
     = (if c' = c \<and> r' = r then Some v else rec_of rec c' r')"
  by (auto simp: rec_of_def update_conv' dict_get_list_def split: option.splits)

lemma rec_of_new_contractor:
  "rec_of (if c \<in> fst ` set rec then rec else AList.update c [] rec) c' r' = rec_of rec c' r'"
proof (cases "c \<in> fst ` set rec")
  case True
  then show ?thesis by simp
next
  case False
  then have "map_of rec c = None" by (simp add: map_of_eq_None_iff)
  with False show ?thesis by (simp add: rec_of_def update_conv')
qed

lemma optimise_routes_records:
  assumes "optimise_routes h cc es ls cands lk sp c rec rs = Inr rec'"
    and "distinct (map fst rs)"
  shows "(\<forall>c' r'. c' \<noteq> c \<or> r' \<notin> fst ` set rs \<longrightarrow> rec_of rec' c' r' = rec_of rec c' r')
       \<and> (\<forall>(r, cfg) \<in> set rs. \<exists>best. rec_of rec' c r = Some (current_departure cfg, best))"
  using assms
proof (induction rs arbitrary: rec)
  case Nil
  then show ?case by simp
next
  case (Cons entry rs)
  let ?ev = "\<lambda>c r x. evaluate_departure_for_route h cc c r x es ls lk (Some cc) sp"
  obtain r cfg where entry: "entry = (r, cfg)" by (cases entry)
  define cur where "cur = (case departure_time cfg of None \<Rightarrow> ''7:00'' | Some d \<Rightarrow> d)"
  have cur: "cur = current_departure cfg" by (simp add: cur_def current_departure_def)
  from Cons.prems(1) entry obtain best bt where
    rest: "optimise_routes h cc es ls cands lk sp c
                 (AList.update c (AList.update r (cur, best) (dict_get_list rec c)) rec) rs = Inr rec'"
    by (auto simp: cur_def Let_def split: sum.splits)
  define rec1 where "rec1 = AList.update c (AList.update r (cur, best) (dict_get_list rec c)) rec"
  from Cons.prems(2) entry have d: "distinct (map fst rs)" and notin: "r \<notin> fst ` set rs" by auto
  from Cons.IH [OF rest [folded rec1_def] d] have
    ih1: "\<forall>c' r'. c' \<noteq> c \<or> r' \<notin> fst ` set rs \<longrightarrow> rec_of rec' c' r' = rec_of rec1 c' r'"
    and ih2: "\<forall>(r, cfg) \<in> set rs. \<exists>best. rec_of rec' c r = Some (current_departure cfg, best)"
    by blast+
  have r1: "rec_of rec1 c' r' = (if c' = c \<and> r' = r then Some (cur, best) else rec_of rec c' r')"
    for c' r'
    unfolding rec1_def by (rule rec_of_update)
  have a: "rec_of rec' c' r' = rec_of rec c' r'"
    if "c' \<noteq> c \<or> r' \<notin> fst ` set (entry # rs)" for c' r'
  proof -
    from that entry have 1: "c' \<noteq> c \<or> r' \<notin> fst ` set rs" and 2: "\<not> (c' = c \<and> r' = r)"
      by auto
    from ih1 1 have "rec_of rec' c' r' = rec_of rec1 c' r'" by blast
    also from 2 have "\<dots> = rec_of rec c' r'" by (auto simp: r1)
    finally show ?thesis .
  qed
  have "rec_of rec' c r = rec_of rec1 c r" using ih1 notin by blast
  with r1 cur have b: "rec_of rec' c r = Some (current_departure cfg, best)" by simp
  from a b ih2 entry show ?case by auto
qed

lemma optimise_contractors_records:
  assumes "optimise_contractors h cc es ls cands lk sp rec cs = Inr rec'"
    and "distinct (map fst cs)"
    and "\<forall>(c, rs) \<in> set cs. distinct (map fst rs)"
  shows "(\<forall>c' r'. c' \<notin> fst ` set cs \<longrightarrow> rec_of rec' c' r' = rec_of rec c' r')
       \<and> (\<forall>(c, rs) \<in> set cs. \<forall>(r, cfg) \<in> set rs.
             \<exists>best. rec_of rec' c r = Some (current_departure cfg, best))"
  using assms
proof (induction cs arbitrary: rec)
  case Nil
  then show ?case by simp
next
  case (Cons entry cs)
  obtain c rs where entry: "entry = (c, rs)" by (cases entry)
  define rec0 where "rec0 = (if c \<in> fst ` set rec then rec else AList.update c [] rec)"
  from Cons.prems(1) entry obtain rec1 where
    a: "optimise_routes h cc es ls cands lk sp c rec0 rs = Inr rec1"
    and b: "optimise_contractors h cc es ls cands lk sp rec1 cs = Inr rec'"
    by (auto simp: rec0_def Let_def split: sum.splits)
  from Cons.prems(2,3) entry have d: "distinct (map fst cs)" "c \<notin> fst ` set cs"
    "\<forall>(c, rs) \<in> set cs. distinct (map fst rs)" "distinct (map fst rs)"
    by auto
  from optimise_routes_records [OF a d(4)] have
    p1: "\<forall>c' r'. c' \<noteq> c \<or> r' \<notin> fst ` set rs \<longrightarrow> rec_of rec1 c' r' = rec_of rec0 c' r'"
    and p2: "\<forall>(r, cfg) \<in> set rs. \<exists>best. rec_of rec1 c r = Some (current_departure cfg, best)"
    by blast+
  from Cons.IH [OF b d(1) d(3)] have
    ih1: "\<forall>c' r'. c' \<notin> fst ` set cs \<longrightarrow> rec_of rec' c' r' = rec_of rec1 c' r'"
    and ih2: "\<forall>(c, rs) \<in> set cs. \<forall>(r, cfg) \<in> set rs.
             \<exists>best. rec_of rec' c r = Some (current_departure cfg, best)"
    by blast+
  have r0: "rec_of rec0 c' r' = rec_of rec c' r'" for c' r'
    unfolding rec0_def by (rule rec_of_new_contractor)
  have x: "rec_of rec' c' r' = rec_of rec c' r'" if "c' \<notin> fst ` set (entry # cs)" for c' r'
  proof -
    from that entry have 1: "c' \<notin> fst ` set cs" and 2: "c' \<noteq> c" by auto
    from ih1 1 have "rec_of rec' c' r' = rec_of rec1 c' r'" by blast
    also from p1 2 have "\<dots> = rec_of rec0 c' r'" by blast
    also have "\<dots> = rec_of rec c' r'" by (rule r0)
    finally show ?thesis .
  qed
  have y: "\<exists>best. rec_of rec' c r = Some (current_departure cfg, best)"
    if "(r, cfg) \<in> set rs" for r cfg
  proof -
    from ih1 d(2) have "rec_of rec' c r = rec_of rec1 c r" by blast
    with p2 that show ?thesis by auto
  qed
  from x y ih2 entry show ?case by auto
qed

lemma route_of_members:
  assumes "route_of cc c r = Some cfg"
  shows "\<exists>rs. (c, rs) \<in> set cc \<and> (r, cfg) \<in> set rs"
proof -
  from assms obtain rs where "map_of cc c = Some rs" "map_of rs r = Some cfg"
    by (auto simp: route_of_def split: option.splits)
  then show ?thesis by (blast dest: map_of_SomeD)
qed

subsection \<open>The recommended time is no worse than the current one\<close>

lemma recommendation_not_worse:
  assumes "optimise_departure_times h cc es ls cands lk sp = Inr (rec, baseline_waits, optimised_waits)"
    and "map_of rec c = Some rs"
    and "map_of rs r = Some (current, optimal)"
    and "current \<in> set cands"
  shows "\<exists>t_opt w_opt t_cur w_cur.
           evaluate_departure_for_route h cc c r optimal es ls lk (Some cc) sp = Inr (t_opt, w_opt)
         \<and> evaluate_departure_for_route h cc c r current es ls lk (Some cc) sp = Inr (t_cur, w_cur)
         \<and> t_opt \<le> t_cur"
proof -
  let ?ev = "\<lambda>c r x. evaluate_departure_for_route h cc c r x es ls lk (Some cc) sp"
  from assms(1) have run: "optimise_contractors h cc es ls cands lk sp [] cc = Inr rec"
    by (auto simp: optimise_departure_times_def split: sum.splits)
  have "good_rec ?ev cands []" by (simp add: good_rec_def)
  with run have "good_rec ?ev cands rec" by (rule optimise_contractors_good)
  with assms(2,3) have "eval_ok ?ev cands c r optimal"
    unfolding good_rec_def by blast
  moreover from assms(4) have "cands \<noteq> []" by auto
  ultimately obtain tb wb where
    tb: "?ev c r optimal = Inr (tb, wb)"
        "\<forall>x \<in> set cands. \<exists>tx wx. ?ev c r x = Inr (tx, wx) \<and> tb \<le> tx"
    unfolding eval_ok_def by blast
  from tb(2) assms(4) obtain tc wc where "?ev c r current = Inr (tc, wc)" "tb \<le> tc" by blast
  with tb(1) show ?thesis by blast
qed

text \<open>
  C3. If the optimiser returns, then for every recommendation \<open>(current, optimal)\<close>
  whose \<open>current\<close> departure time is one of the candidates, the evaluations of both times
  (all other routes as in the original configuration) return, and the total
  truck-weighted wait of \<open>optimal\<close> is at most that of \<open>current\<close>. Every route of the
  configuration has such a recommendation, with its own departure time as \<open>current\<close>.
\<close>

theorem optimal_not_worse_than_current:
  assumes "optimise_departure_times h cc es ls cands lk sp = Inr (rec, baseline_waits, optimised_waits)"
  shows "(\<forall>c r current optimal.
            rec_of rec c r = Some (current, optimal) \<longrightarrow> current \<in> set cands \<longrightarrow>
            (\<exists>t_opt w_opt t_cur w_cur.
               evaluate_departure_for_route h cc c r optimal es ls lk (Some cc) sp = Inr (t_opt, w_opt)
             \<and> evaluate_departure_for_route h cc c r current es ls lk (Some cc) sp = Inr (t_cur, w_cur)
             \<and> t_opt \<le> t_cur))
       \<and> (dict_keys_distinct cc \<longrightarrow>
            (\<forall>c r cfg. route_of cc c r = Some cfg \<longrightarrow>
               (\<exists>optimal. rec_of rec c r = Some (current_departure cfg, optimal))))"
proof (intro conjI allI impI)
  fix c r current optimal
  assume e: "rec_of rec c r = Some (current, optimal)" and m: "current \<in> set cands"
  from e obtain rs where "map_of rec c = Some rs" "map_of rs r = Some (current, optimal)"
    by (auto simp: rec_of_def split: option.splits)
  with assms show "\<exists>t_opt w_opt t_cur w_cur.
               evaluate_departure_for_route h cc c r optimal es ls lk (Some cc) sp = Inr (t_opt, w_opt)
             \<and> evaluate_departure_for_route h cc c r current es ls lk (Some cc) sp = Inr (t_cur, w_cur)
             \<and> t_opt \<le> t_cur"
    using m by (rule recommendation_not_worse)
next
  fix c r cfg
  assume d: "dict_keys_distinct cc" and rt: "route_of cc c r = Some cfg"
  from assms have run: "optimise_contractors h cc es ls cands lk sp [] cc = Inr rec"
    by (auto simp: optimise_departure_times_def split: sum.splits)
  from d have d1: "distinct (map fst cc)" and d2: "\<forall>(c, rs) \<in> set cc. distinct (map fst rs)"
    by (simp_all add: dict_keys_distinct_def)
  from optimise_contractors_records [OF run d1 d2] have
    all: "\<forall>(c, rs) \<in> set cc. \<forall>(r, cfg) \<in> set rs.
             \<exists>best. rec_of rec c r = Some (current_departure cfg, best)"
    by blast
  from route_of_members [OF rt] obtain rs where "(c, rs) \<in> set cc" "(r, cfg) \<in> set rs"
    by blast
  with all show "\<exists>optimal. rec_of rec c r = Some (current_departure cfg, optimal)"
    by blast
qed

theorem optimal_not_worse_than_current_witness:
  "optimise_departure_times FENI_DUMP_POINTS two_routes 25 25 [''6:00'', ''7:00''] None (2 / 100)
     = Inr ([(''RIM'', [(''TF'', ''7:00'', ''6:00'')]), (''GMG'', [(''KR'', ''7:00'', ''6:00'')])],
            [(''FENI KM 0'', 0), (''FENI KM 15'', 12 / 5)],
            [(''FENI KM 0'', 0), (''FENI KM 15'', 12 / 5)])
   \<and> ''7:00'' \<in> set [''6:00'', ''7:00'']
   \<and> dict_keys_distinct two_routes
   \<and> (\<exists>t_opt w_opt t_cur w_cur.
         evaluate_departure_for_route FENI_DUMP_POINTS two_routes ''RIM'' ''TF'' ''6:00'' 25 25 None
           (Some two_routes) (2 / 100) = Inr (t_opt, w_opt)
       \<and> evaluate_departure_for_route FENI_DUMP_POINTS two_routes ''RIM'' ''TF'' ''7:00'' 25 25 None
           (Some two_routes) (2 / 100) = Inr (t_cur, w_cur)
       \<and> t_opt \<le> t_cur)
   \<and> (\<exists>optimal.
         rec_of [(''RIM'', [(''TF'', ''7:00'', ''6:00'')]), (''GMG'', [(''KR'', ''7:00'', ''6:00'')])]
           ''GMG'' ''KR'' = Some (''7:00'', optimal))"
proof -
  let ?rec = "[(''RIM'', [(''TF'', ''7:00'', ''6:00'')]), (''GMG'', [(''KR'', ''7:00'', ''6:00'')])]"
  let ?kr = "\<lparr>loading_location = Some ''KR'', dumping_location = Some ''FENI U1 (LINE 65-66)'',
              departure_time = Some ''7:00'', number_of_trucks = Some 2\<rparr>"
  have run: "optimise_departure_times FENI_DUMP_POINTS two_routes 25 25 [''6:00'', ''7:00''] None
               (2 / 100)
     = Inr (?rec, [(''FENI KM 0'', 0), (''FENI KM 15'', 12 / 5)],
            [(''FENI KM 0'', 0), (''FENI KM 15'', 12 / 5)])"
    by code_simp
  have e: "rec_of ?rec ''RIM'' ''TF'' = Some (''7:00'', ''6:00'')"
    by (simp add: rec_of_def)
  have m: "''7:00'' \<in> set [''6:00'', ''7:00'']" by simp
  have d: "dict_keys_distinct two_routes"
    by (simp add: dict_keys_distinct_def two_routes_def)
  have rt: "route_of two_routes ''GMG'' ''KR'' = Some ?kr"
    by (simp add: route_of_def two_routes_def)
  have cur: "current_departure ?kr = ''7:00''"
    by (simp add: current_departure_def)
  note t = optimal_not_worse_than_current [OF run]
  from t e m have one: "\<exists>t_opt w_opt t_cur w_cur.
         evaluate_departure_for_route FENI_DUMP_POINTS two_routes ''RIM'' ''TF'' ''6:00'' 25 25 None
           (Some two_routes) (2 / 100) = Inr (t_opt, w_opt)
       \<and> evaluate_departure_for_route FENI_DUMP_POINTS two_routes ''RIM'' ''TF'' ''7:00'' 25 25 None
           (Some two_routes) (2 / 100) = Inr (t_cur, w_cur)
       \<and> t_opt \<le> t_cur"
    by blast
  from t d rt have "\<exists>optimal. rec_of ?rec ''GMG'' ''KR'' = Some (current_departure ?kr, optimal)"
    by blast
  with cur have two: "\<exists>optimal. rec_of ?rec ''GMG'' ''KR'' = Some (''7:00'', optimal)"
    by simp
  from run m d one two show ?thesis by blast
qed

section \<open>The caller's configuration in the store\<close>

lemma preserves_refl: "preserves s s"
  by (simp add: preserves_def)

lemma preserves_trans: "preserves s0 s1 \<Longrightarrow> preserves s1 s2 \<Longrightarrow> preserves s0 s2"
  by (auto simp: preserves_def intro: prefix_order.trans)

lemma prefix_list_update:
  assumes "prefix xs0 xs" and "length xs0 \<le> i"
  shows "prefix xs0 (xs[i := v])"
proof -
  from assms(1) obtain e where "xs = xs0 @ e" by (auto simp: prefix_def)
  with assms(2) show ?thesis by (simp add: list_update_append)
qed

subsection \<open>\<open>deepcopy\<close> allocates, and its result refers to new objects only\<close>

lemma copy_cfg_props:
  assumes "copy_cfg s mc a = (s', mc', r)"
  shows "contractor_dicts s' = contractor_dicts s
       \<and> route_dicts s' = route_dicts s
       \<and> prefix (cfg_dicts s) (cfg_dicts s')
       \<and> (n_c \<le> length (cfg_dicts s) \<longrightarrow> memo_above n_c mc
           \<longrightarrow> memo_above n_c mc' \<and> (\<forall>a'. r = Inr a' \<longrightarrow> n_c \<le> a'))"
  using assms
  by (auto simp: copy_cfg_def memo_above_def split: option.splits if_splits dest: map_of_SomeD)

lemma copy_cfg_refs_props:
  assumes "copy_cfg_refs s mc kvs = (s', mc', r)"
  shows "contractor_dicts s' = contractor_dicts s
       \<and> route_dicts s' = route_dicts s
       \<and> prefix (cfg_dicts s) (cfg_dicts s')
       \<and> (n_c \<le> length (cfg_dicts s) \<longrightarrow> memo_above n_c mc
           \<longrightarrow> memo_above n_c mc' \<and> (\<forall>kvs'. r = Inr kvs' \<longrightarrow> refs_above n_c kvs'))"
  using assms
proof (induction kvs arbitrary: s mc s' mc' r)
  case Nil
  then show ?case by (auto simp: refs_above_def)
next
  case (Cons kv kvs)
  obtain k a where kv: "kv = (k, a)" by (cases kv)
  obtain s1 m1 r1 where c1: "copy_cfg s mc a = (s1, m1, r1)" by (cases "copy_cfg s mc a")
  note p1 = copy_cfg_props [OF c1, of n_c]
  show ?case
  proof (cases r1)
    case (Inl e)
    with Cons.prems kv c1 have "s' = s1" "mc' = m1" "r = Inl e" by simp_all
    with p1 show ?thesis by simp
  next
    case (Inr a')
    obtain s2 m2 r2 where c2: "copy_cfg_refs s1 m1 kvs = (s2, m2, r2)"
      by (cases "copy_cfg_refs s1 m1 kvs")
    note p2 = Cons.IH [OF c2]
    have len: "length (cfg_dicts s) \<le> length (cfg_dicts s1)"
      using p1 by (simp add: prefix_length_le)
    have res: "s' = s2" "mc' = m2" "r = (case r2 of Inl e \<Rightarrow> Inl e | Inr kvs' \<Rightarrow> Inr ((k, a') # kvs'))"
      using Cons.prems kv c1 c2 Inr by (auto split: sum.splits)
    have fr: "memo_above n_c mc' \<and> (\<forall>kvs'. r = Inr kvs' \<longrightarrow> refs_above n_c kvs')"
      if "n_c \<le> length (cfg_dicts s)" "memo_above n_c mc"
    proof -
      from p1 that Inr have m1: "memo_above n_c m1" and a': "n_c \<le> a'" by simp_all
      from that(1) len have "n_c \<le> length (cfg_dicts s1)" by simp
      with p2 m1 have "memo_above n_c m2" "\<forall>kvs'. r2 = Inr kvs' \<longrightarrow> refs_above n_c kvs'"
        by simp_all
      with res a' show ?thesis by (auto simp: refs_above_def split: sum.splits)
    qed
    from p1 p2 res fr show ?thesis
      by (auto intro: prefix_order.trans)
  qed
qed

lemma closed_above_append_route:
  assumes "closed_above n_r n_c s" and "refs_above n_c kvs"
    and "route_dicts s1 = route_dicts s"
  shows "closed_above n_r n_c (s1\<lparr>route_dicts := route_dicts s1 @ [kvs]\<rparr>)"
  using assms
  by (auto simp: closed_above_def refs_above_def nth_append)

lemma copy_routes_props:
  assumes "copy_routes s mr mc a = (s', mr', mc', r)"
  shows "contractor_dicts s' = contractor_dicts s
       \<and> prefix (route_dicts s) (route_dicts s')
       \<and> prefix (cfg_dicts s) (cfg_dicts s')
       \<and> (n_r \<le> length (route_dicts s) \<longrightarrow> n_c \<le> length (cfg_dicts s)
            \<longrightarrow> memo_above n_r mr \<longrightarrow> memo_above n_c mc \<longrightarrow> closed_above n_r n_c s
            \<longrightarrow> memo_above n_r mr' \<and> memo_above n_c mc' \<and> closed_above n_r n_c s'
               \<and> (\<forall>a'. r = Inr a' \<longrightarrow> n_r \<le> a'))"
proof (cases "map_of mr a")
  case (Some a')
  with assms have "s' = s" "mr' = mr" "mc' = mc" "r = Inr a'"
    by (simp_all add: copy_routes_def)
  moreover from Some have "(a, a') \<in> set mr" by (rule map_of_SomeD)
  ultimately show ?thesis by (auto simp: memo_above_def)
next
  case None
  show ?thesis
  proof (cases "a < length (route_dicts s)")
    case False
    with None assms show ?thesis by (auto simp: copy_routes_def)
  next
    case True
    obtain s1 m1 r1 where c1: "copy_cfg_refs s mc (route_dicts s ! a) = (s1, m1, r1)"
      by (cases "copy_cfg_refs s mc (route_dicts s ! a)")
    note p1 = copy_cfg_refs_props [OF c1, of n_c]
    show ?thesis
    proof (cases r1)
      case (Inl e)
      with None True c1 assms have "s' = s1" "mr' = mr" "mc' = m1" "r = Inl e"
        by (simp_all add: copy_routes_def)
      with p1 show ?thesis by (auto simp: closed_above_def)
    next
      case (Inr kvs')
      with None True c1 assms have res:
        "s' = s1\<lparr>route_dicts := route_dicts s1 @ [kvs']\<rparr>"
        "mr' = (a, length (route_dicts s1)) # mr" "mc' = m1" "r = Inr (length (route_dicts s1))"
        by (simp_all add: copy_routes_def)
      have fr: "memo_above n_r mr' \<and> memo_above n_c mc' \<and> closed_above n_r n_c s'
               \<and> (\<forall>a'. r = Inr a' \<longrightarrow> n_r \<le> a')"
        if "n_r \<le> length (route_dicts s)" "n_c \<le> length (cfg_dicts s)"
           "memo_above n_r mr" "memo_above n_c mc" "closed_above n_r n_c s"
      proof -
        from p1 that Inr have m1: "memo_above n_c m1" and k: "refs_above n_c kvs'" by simp_all
        from p1 have rd: "route_dicts s1 = route_dicts s" by simp
        have "closed_above n_r n_c s'"
          unfolding res using that(5) k rd by (rule closed_above_append_route)
        with m1 that rd res show ?thesis by (auto simp: memo_above_def)
      qed
      from p1 res fr show ?thesis by auto
    qed
  qed
qed

lemma copy_routes_refs_props:
  assumes "copy_routes_refs s mr mc kvs = (s', mr', mc', r)"
  shows "contractor_dicts s' = contractor_dicts s
       \<and> prefix (route_dicts s) (route_dicts s')
       \<and> prefix (cfg_dicts s) (cfg_dicts s')
       \<and> (n_r \<le> length (route_dicts s) \<longrightarrow> n_c \<le> length (cfg_dicts s)
            \<longrightarrow> memo_above n_r mr \<longrightarrow> memo_above n_c mc \<longrightarrow> closed_above n_r n_c s
            \<longrightarrow> memo_above n_r mr' \<and> memo_above n_c mc' \<and> closed_above n_r n_c s'
               \<and> (\<forall>kvs'. r = Inr kvs' \<longrightarrow> refs_above n_r kvs'))"
  using assms
proof (induction kvs arbitrary: s mr mc s' mr' mc' r)
  case Nil
  then show ?case by (auto simp: refs_above_def)
next
  case (Cons kv kvs)
  obtain k a where kv: "kv = (k, a)" by (cases kv)
  obtain s1 mr1 mc1 r1 where c1: "copy_routes s mr mc a = (s1, mr1, mc1, r1)"
    by (cases "copy_routes s mr mc a")
  note p1 = copy_routes_props [OF c1, of n_r n_c]
  show ?case
  proof (cases r1)
    case (Inl e)
    with Cons.prems kv c1 have "s' = s1" "mr' = mr1" "mc' = mc1" "r = Inl e" by simp_all
    with p1 show ?thesis by simp
  next
    case (Inr a')
    obtain s2 mr2 mc2 r2 where c2: "copy_routes_refs s1 mr1 mc1 kvs = (s2, mr2, mc2, r2)"
      by (cases "copy_routes_refs s1 mr1 mc1 kvs")
    note p2 = Cons.IH [OF c2]
    have len: "length (route_dicts s) \<le> length (route_dicts s1)"
         "length (cfg_dicts s) \<le> length (cfg_dicts s1)"
      using p1 by (simp_all add: prefix_length_le)
    have res: "s' = s2" "mr' = mr2" "mc' = mc2"
      "r = (case r2 of Inl e \<Rightarrow> Inl e | Inr kvs' \<Rightarrow> Inr ((k, a') # kvs'))"
      using Cons.prems kv c1 c2 Inr by (auto split: sum.splits)
    have fr: "memo_above n_r mr' \<and> memo_above n_c mc' \<and> closed_above n_r n_c s'
               \<and> (\<forall>kvs'. r = Inr kvs' \<longrightarrow> refs_above n_r kvs')"
      if h: "n_r \<le> length (route_dicts s)" "n_c \<le> length (cfg_dicts s)"
           "memo_above n_r mr" "memo_above n_c mc" "closed_above n_r n_c s"
    proof -
      from p1 h Inr have i1: "memo_above n_r mr1" "memo_above n_c mc1" "closed_above n_r n_c s1"
        and a': "n_r \<le> a'" by simp_all
      from h len have "n_r \<le> length (route_dicts s1)" "n_c \<le> length (cfg_dicts s1)" by simp_all
      with p2 i1 have "memo_above n_r mr2" "memo_above n_c mc2" "closed_above n_r n_c s2"
        "\<forall>kvs'. r2 = Inr kvs' \<longrightarrow> refs_above n_r kvs'"
        by simp_all
      with res a' show ?thesis by (auto simp: refs_above_def split: sum.splits)
    qed
    from p1 p2 res fr show ?thesis
      by (auto intro: prefix_order.trans)
  qed
qed

lemma deepcopy_props:
  assumes "deepcopy s a = (s', r)"
  shows "preserves s s'"
    and "r = Inr a' \<Longrightarrow> a' < length (contractor_dicts s')
           \<and> refs_above (length (route_dicts s)) (contractor_dicts s' ! a')
           \<and> closed_above (length (route_dicts s)) (length (cfg_dicts s)) s'"
proof -
  show "preserves s s'"
  proof (cases "a < length (contractor_dicts s)")
    case False
    with assms show ?thesis by (simp add: deepcopy_def preserves_refl)
  next
    case True
    obtain s1 mr mc r1 where c: "copy_routes_refs s [] [] (contractor_dicts s ! a) = (s1, mr, mc, r1)"
      by (cases "copy_routes_refs s [] [] (contractor_dicts s ! a)")
    note p = copy_routes_refs_props [OF c, of 0 0]
    from assms True c have "contractor_dicts s' = contractor_dicts s1
        \<or> contractor_dicts s' = contractor_dicts s1 @ [projr r1]"
      "route_dicts s' = route_dicts s1" "cfg_dicts s' = cfg_dicts s1"
      by (auto simp: deepcopy_def split: sum.splits)
    with p show ?thesis by (auto simp: preserves_def)
  qed
next
  assume r: "r = Inr a'"
  with assms have True: "a < length (contractor_dicts s)"
    by (auto simp: deepcopy_def split: if_splits)
  obtain s1 mr mc r1 where c: "copy_routes_refs s [] [] (contractor_dicts s ! a) = (s1, mr, mc, r1)"
    by (cases "copy_routes_refs s [] [] (contractor_dicts s ! a)")
  have init: "memo_above (length (route_dicts s)) []" "memo_above (length (cfg_dicts s)) []"
    "closed_above (length (route_dicts s)) (length (cfg_dicts s)) s"
    by (simp_all add: memo_above_def closed_above_def)
  note p = copy_routes_refs_props [OF c, of "length (route_dicts s)" "length (cfg_dicts s)"]
  from assms True c r obtain kvs' where k: "r1 = Inr kvs'"
    "s' = s1\<lparr>contractor_dicts := contractor_dicts s1 @ [kvs']\<rparr>" "a' = length (contractor_dicts s1)"
    by (auto simp: deepcopy_def split: sum.splits)
  from p init k(1) have "closed_above (length (route_dicts s)) (length (cfg_dicts s)) s1"
    "refs_above (length (route_dicts s)) kvs'"
    by simp_all
  with k show "a' < length (contractor_dicts s')
           \<and> refs_above (length (route_dicts s)) (contractor_dicts s' ! a')
           \<and> closed_above (length (route_dicts s)) (length (cfg_dicts s)) s'"
    by (simp add: closed_above_def)
qed


subsection \<open>The assignment writes into the copy\<close>

lemma set_departure_time_store_props:
  assumes "set_departure_time_store s config c r t = (s', res)"
    and "config < length (contractor_dicts s)"
    and "refs_above n_r (contractor_dicts s ! config)"
    and "closed_above n_r n_c s"
  shows "contractor_dicts s' = contractor_dicts s \<and> route_dicts s' = route_dicts s
       \<and> length (cfg_dicts s') = length (cfg_dicts s)
       \<and> (\<forall>xs0. prefix xs0 (cfg_dicts s) \<longrightarrow> length xs0 \<le> n_c \<longrightarrow> prefix xs0 (cfg_dicts s'))"
proof (cases "map_of (contractor_dicts s ! config) c")
  case None
  with assms(1,2) show ?thesis by (auto simp: set_departure_time_store_def)
next
  case (Some ra)
  then have "(c, ra) \<in> set (contractor_dicts s ! config)" by (rule map_of_SomeD)
  with assms(3) have ra: "n_r \<le> ra" by (auto simp: refs_above_def)
  show ?thesis
  proof (cases "ra < length (route_dicts s)")
    case False
    with Some assms(1,2) show ?thesis by (auto simp: set_departure_time_store_def)
  next
    case True
    show ?thesis
    proof (cases "map_of (route_dicts s ! ra) r")
      case None
      with Some True assms(1,2) show ?thesis by (auto simp: set_departure_time_store_def)
    next
      case inner: (Some ca)
      then have "(r, ca) \<in> set (route_dicts s ! ra)" by (rule map_of_SomeD)
      with assms(4) ra True have ca: "n_c \<le> ca" by (auto simp: closed_above_def)
      show ?thesis
      proof (cases "ca < length (cfg_dicts s)")
        case False
        with Some True inner assms(1,2) show ?thesis
          by (auto simp: set_departure_time_store_def)
      next
        case lt: True
        with Some True inner assms(1,2) have
          "s' = s\<lparr>cfg_dicts := (cfg_dicts s)[ca := (cfg_dicts s ! ca)\<lparr>departure_time := Some t\<rparr>]\<rparr>"
          by (auto simp: set_departure_time_store_def)
        with ca show ?thesis by (auto intro: prefix_list_update)
      qed
    qed
  qed
qed

lemma closed_above_same_routes:
  "closed_above n_r n_c s \<Longrightarrow> route_dicts s' = route_dicts s \<Longrightarrow> closed_above n_r n_c s'"
  by (simp add: closed_above_def)

lemma evaluate_store_preserves:
  assumes "evaluate_departure_for_route_store h s cc c r t es ls lk b sp = (s', res)"
    and "preserves s0 s"
  shows "preserves s0 s'"
proof -
  obtain s1 r1 where d: "deepcopy s (case b of Some x \<Rightarrow> x | None \<Rightarrow> cc) = (s1, r1)"
    by (cases "deepcopy s (case b of Some x \<Rightarrow> x | None \<Rightarrow> cc)")
  from deepcopy_props(1) [OF d] assms(2) have p1: "preserves s0 s1" by (rule preserves_trans [rotated])
  show ?thesis
  proof (cases r1)
    case (Inl e)
    with assms(1) d have "s' = s1" by (simp add: evaluate_departure_for_route_store_def)
    with p1 show ?thesis by simp
  next
    case (Inr config)
    from deepcopy_props(2) [OF d Inr] have
      c: "config < length (contractor_dicts s1)"
         "refs_above (length (route_dicts s)) (contractor_dicts s1 ! config)"
         "closed_above (length (route_dicts s)) (length (cfg_dicts s)) s1"
      by simp_all
    obtain s2 r2 where w: "set_departure_time_store s1 config c r t = (s2, r2)"
      by (cases "set_departure_time_store s1 config c r t")
    note p = set_departure_time_store_props [OF w c]
    have "length (cfg_dicts s0) \<le> length (cfg_dicts s)"
      using assms(2) by (simp add: preserves_def prefix_length_le)
    with p p1 have "preserves s0 s2" by (simp add: preserves_def)
    moreover from assms(1) d Inr w have "s' = s2"
      by (auto simp: evaluate_departure_for_route_store_def split: sum.splits option.splits)
    ultimately show ?thesis by simp
  qed
qed

lemma search_candidates_store_preserves:
  assumes "search_candidates_store ev s best cands = (s', res)"
    and "preserves s0 s"
    and "\<And>s1 x s2 r. ev s1 x = (s2, r) \<Longrightarrow> preserves s0 s1 \<Longrightarrow> preserves s0 s2"
  shows "preserves s0 s'"
  using assms(1,2)
proof (induction cands arbitrary: s best)
  case Nil
  then show ?case by simp
next
  case (Cons x cands)
  obtain s1 r1 where e: "ev s x = (s1, r1)" by (cases "ev s x")
  from assms(3) [OF e Cons.prems(2)] have p1: "preserves s0 s1" .
  show ?case
  proof (cases r1)
    case (Inl err)
    with Cons.prems(1) e have "s' = s1" by simp
    with p1 show ?thesis by simp
  next
    case (Inr v)
    obtain tw ws where v: "v = (tw, ws)" by (cases v)
    from Cons.prems(1) e Inr v obtain best' where
      "search_candidates_store ev s1 best' cands = (s', res)" by simp
    from Cons.IH [OF this p1] show ?thesis .
  qed
qed

lemma optimise_routes_store_preserves:
  assumes "optimise_routes_store h cc es ls cands lk sp c s rec kvs = (s', res)"
    and "preserves s0 s"
  shows "preserves s0 s'"
  using assms
proof (induction kvs arbitrary: s rec)
  case Nil
  then show ?case by simp
next
  case (Cons kv kvs)
  obtain r ca where kv: "kv = (r, ca)" by (cases kv)
  show ?case
  proof (cases "read_cfg s ca")
    case None
    with Cons.prems kv show ?thesis by simp
  next
    case (Some cfg)
    define cur where "cur = (case departure_time cfg of None \<Rightarrow> ''7:00'' | Some d \<Rightarrow> d)"
    let ?ev = "\<lambda>s candidate. evaluate_departure_for_route_store h s cc c r candidate es ls lk (Some cc) sp"
    obtain s1 r1 where sc: "search_candidates_store ?ev s (cur, None) cands = (s1, r1)"
      by (cases "search_candidates_store ?ev s (cur, None) cands")
    have p1: "preserves s0 s1"
      using sc Cons.prems(2)
    proof (rule search_candidates_store_preserves)
      fix sa x sb rr
      assume "?ev sa x = (sb, rr)" "preserves s0 sa"
      then show "preserves s0 sb" by (rule evaluate_store_preserves)
    qed
    show ?thesis
    proof (cases r1)
      case (Inl e)
      with Cons.prems(1) kv Some sc have "s' = s1" by (simp add: cur_def Let_def)
      with p1 show ?thesis by simp
    next
      case (Inr v)
      obtain bd bt where v: "v = (bd, bt)" by (cases v)
      from Cons.prems(1) kv Some sc Inr v obtain rec' where
        "optimise_routes_store h cc es ls cands lk sp c s1 rec' kvs = (s', res)"
        by (simp add: cur_def Let_def)
      from Cons.IH [OF this p1] show ?thesis .
    qed
  qed
qed

lemma optimise_contractors_store_preserves:
  assumes "optimise_contractors_store h cc es ls cands lk sp s rec kvs = (s', res)"
    and "preserves s0 s"
  shows "preserves s0 s'"
  using assms
proof (induction kvs arbitrary: s rec)
  case Nil
  then show ?case by simp
next
  case (Cons kv kvs)
  obtain c ra where kv: "kv = (c, ra)" by (cases kv)
  define rec0 where "rec0 = (if c \<in> fst ` set rec then rec else AList.update c [] rec)"
  show ?case
  proof (cases "ra < length (route_dicts s)")
    case False
    with Cons.prems kv show ?thesis by (simp add: Let_def)
  next
    case True
    obtain s1 r1 where o: "optimise_routes_store h cc es ls cands lk sp c s rec0 (route_dicts s ! ra) = (s1, r1)"
      by (cases "optimise_routes_store h cc es ls cands lk sp c s rec0 (route_dicts s ! ra)")
    from o Cons.prems(2) have p1: "preserves s0 s1" by (rule optimise_routes_store_preserves)
    show ?thesis
    proof (cases r1)
      case (Inl e)
      with Cons.prems(1) kv True o have "s' = s1" by (simp add: rec0_def Let_def)
      with p1 show ?thesis by simp
    next
      case (Inr rec1)
      with Cons.prems(1) kv True o have
        "optimise_contractors_store h cc es ls cands lk sp s1 rec1 kvs = (s', res)"
        by (simp add: rec0_def Let_def)
      from Cons.IH [OF this p1] show ?thesis .
    qed
  qed
qed

subsection \<open>The second pass\<close>

lemma apply_route_times_store_props:
  assumes "apply_route_times_store u c s rs = (s', res)"
    and "u < length (contractor_dicts s)"
    and "refs_above n_r (contractor_dicts s ! u)"
    and "closed_above n_r n_c s"
    and "preserves s0 s" and "length (cfg_dicts s0) \<le> n_c"
  shows "preserves s0 s' \<and> contractor_dicts s' = contractor_dicts s \<and> closed_above n_r n_c s'"
  using assms(1-5)
proof (induction rs arbitrary: s)
  case Nil
  then show ?case by simp
next
  case (Cons x rs)
  obtain r cur opt where x: "x = (r, cur, opt)" by (cases x)
  obtain s1 r1 where w: "set_departure_time_store s u c r opt = (s1, r1)"
    by (cases "set_departure_time_store s u c r opt")
  note p = set_departure_time_store_props [OF w Cons.prems(2,3,4)]
  from p Cons.prems(5) assms(6) have p1: "preserves s0 s1" by (simp add: preserves_def)
  from p Cons.prems(4) have c1: "closed_above n_r n_c s1" by (simp add: closed_above_def)
  from p have cd: "contractor_dicts s1 = contractor_dicts s" by simp
  show ?case
  proof (cases r1)
    case (Inl e)
    with Cons.prems(1) x w have "s' = s1" by simp
    with p1 c1 cd show ?thesis by simp
  next
    case (Inr uu)
    with Cons.prems(1) x w have run: "apply_route_times_store u c s1 rs = (s', res)" by simp
    from Cons.prems(2,3) cd have "u < length (contractor_dicts s1)"
      "refs_above n_r (contractor_dicts s1 ! u)" by simp_all
    from Cons.IH [OF run this c1 p1] cd show ?thesis by simp
  qed
qed

lemma apply_recommended_store_props:
  assumes "apply_recommended_store u s rec = (s', res)"
    and "u < length (contractor_dicts s)"
    and "refs_above n_r (contractor_dicts s ! u)"
    and "closed_above n_r n_c s"
    and "preserves s0 s" and "length (cfg_dicts s0) \<le> n_c"
  shows "preserves s0 s'"
  using assms(1-5)
proof (induction rec arbitrary: s)
  case Nil
  then show ?case by simp
next
  case (Cons x rec)
  obtain c rs where x: "x = (c, rs)" by (cases x)
  obtain s1 r1 where w: "apply_route_times_store u c s rs = (s1, r1)"
    by (cases "apply_route_times_store u c s rs")
  note p = apply_route_times_store_props [OF w Cons.prems(2,3,4,5) assms(6)]
  show ?case
  proof (cases r1)
    case (Inl e)
    with Cons.prems(1) x w have "s' = s1" by simp
    with p show ?thesis by simp
  next
    case (Inr uu)
    with Cons.prems(1) x w have run: "apply_recommended_store u s1 rec = (s', res)" by simp
    from Cons.prems(2,3) p have "u < length (contractor_dicts s1)"
      "refs_above n_r (contractor_dicts s1 ! u)" by simp_all
    from Cons.IH [OF run this] p show ?thesis by simp
  qed
qed

lemma optimise_store_preserves:
  assumes "optimise_departure_times_store h s cc es ls cands lk sp = (s', res)"
  shows "preserves s s'"
proof (cases "simulate_wait_times_store h s cc es ls lk sp")
  case (Inl e)
  with assms show ?thesis by (simp add: optimise_departure_times_store_def preserves_refl)
next
  case (Inr bw)
  obtain baseline det where bw: "bw = (baseline, det)" by (cases bw)
  show ?thesis
  proof (cases "cc < length (contractor_dicts s)")
    case False
    with assms Inr bw show ?thesis by (simp add: optimise_departure_times_store_def preserves_refl)
  next
    case True
    obtain s1 r1 where o: "optimise_contractors_store h cc es ls cands lk sp s [] (contractor_dicts s ! cc) = (s1, r1)"
      by (cases "optimise_contractors_store h cc es ls cands lk sp s [] (contractor_dicts s ! cc)")
    from o preserves_refl have p1: "preserves s s1" by (rule optimise_contractors_store_preserves)
    show ?thesis
    proof (cases r1)
      case (Inl e)
      with assms Inr bw True o have "s' = s1" by (simp add: optimise_departure_times_store_def)
      with p1 show ?thesis by simp
    next
      case rec: (Inr recommended)
      obtain s2 r2 where d: "deepcopy s1 cc = (s2, r2)" by (cases "deepcopy s1 cc")
      from p1 deepcopy_props(1) [OF d] have p2: "preserves s s2" by (rule preserves_trans)
      show ?thesis
      proof (cases r2)
        case (Inl e)
        with assms Inr bw True o rec d have "s' = s2" by (simp add: optimise_departure_times_store_def)
        with p2 show ?thesis by simp
      next
        case upd: (Inr u)
        from deepcopy_props(2) [OF d upd] have
          c: "u < length (contractor_dicts s2)"
             "refs_above (length (route_dicts s1)) (contractor_dicts s2 ! u)"
             "closed_above (length (route_dicts s1)) (length (cfg_dicts s1)) s2"
          by simp_all
        obtain s3 r3 where a: "apply_recommended_store u s2 recommended = (s3, r3)"
          by (cases "apply_recommended_store u s2 recommended")
        have "length (cfg_dicts s) \<le> length (cfg_dicts s1)"
          using p1 by (simp add: preserves_def prefix_length_le)
        with a c p2 have p3: "preserves s s3" by (rule apply_recommended_store_props)
        from assms Inr bw True o rec d upd a have "s' = s3"
          by (auto simp: optimise_departure_times_store_def split: sum.splits)
        with p3 show ?thesis by simp
      qed
    qed
  qed
qed

subsection \<open>Reading the caller's configuration\<close>

lemma read_entries_mono:
  assumes "read_entries rd kvs = Some vs"
    and "\<And>a v. rd a = Some v \<Longrightarrow> rd' a = Some v"
  shows "read_entries rd' kvs = Some vs"
  using assms(1)
proof (induction kvs arbitrary: vs)
  case Nil
  then show ?case by simp
next
  case (Cons kv kvs)
  obtain k a where kv: "kv = (k, a)" by (cases kv)
  from Cons.prems kv obtain v vs' where
    v: "rd a = Some v" "read_entries rd kvs = Some vs'" "vs = (k, v) # vs'"
    by (auto split: option.splits)
  from v(1) have "rd' a = Some v" by (rule assms(2))
  moreover from v(2) have "read_entries rd' kvs = Some vs'" by (rule Cons.IH)
  ultimately show ?case using kv v(3) by simp
qed

lemma prefix_nth: "prefix xs ys \<Longrightarrow> i < length xs \<Longrightarrow> ys ! i = xs ! i \<and> i < length ys"
  by (auto simp: prefix_def nth_append)

lemma read_cfg_preserved: "preserves s0 s \<Longrightarrow> read_cfg s0 a = Some v \<Longrightarrow> read_cfg s a = Some v"
  by (auto simp: read_cfg_def preserves_def split: if_splits dest: prefix_nth)

lemma read_routes_preserved:
  assumes "preserves s0 s" and "read_routes s0 a = Some v"
  shows "read_routes s a = Some v"
proof -
  from assms(2) have a: "a < length (route_dicts s0)"
    and r: "read_entries (read_cfg s0) (route_dicts s0 ! a) = Some v"
    by (auto simp: read_routes_def split: if_splits)
  from assms(1) a have n: "route_dicts s ! a = route_dicts s0 ! a" "a < length (route_dicts s)"
    by (auto simp: preserves_def dest: prefix_nth)
  from r have "read_entries (read_cfg s) (route_dicts s0 ! a) = Some v"
    by (rule read_entries_mono) (rule read_cfg_preserved [OF assms(1)])
  with n show ?thesis by (simp add: read_routes_def)
qed

lemma read_config_preserved:
  assumes "preserves s0 s" and "read_config s0 a = Some v"
  shows "read_config s a = Some v"
proof -
  from assms(2) have a: "a < length (contractor_dicts s0)"
    and r: "read_entries (read_routes s0) (contractor_dicts s0 ! a) = Some v"
    by (auto simp: read_config_def split: if_splits)
  from assms(1) a have n: "contractor_dicts s ! a = contractor_dicts s0 ! a"
    "a < length (contractor_dicts s)"
    by (auto simp: preserves_def dest: prefix_nth)
  from r have "read_entries (read_routes s) (contractor_dicts s0 ! a) = Some v"
    by (rule read_entries_mono) (rule read_routes_preserved [OF assms(1)])
  with n show ?thesis by (simp add: read_config_def)
qed

text \<open>
  C9. Whatever the hierarchy, speeds, candidates and lookup, and whether the call returns
  or raises: a configuration that can be read at the caller's address before
  \<open>optimise_departure_times\<close> reads as the same value in the store the call leaves
  behind. Every write of the per-candidate evaluations and of the second pass goes to an
  object that \<open>deepcopy\<close> allocated.
\<close>

theorem caller_configuration_unchanged:
  assumes "read_config s contractor_configs = Some v"
  shows "read_config
           (fst (optimise_departure_times_store h s contractor_configs empty_speed loaded_speed
                   candidate_times lookup spacing))
           contractor_configs = Some v"
proof -
  obtain s' res where run:
    "optimise_departure_times_store h s contractor_configs empty_speed loaded_speed
       candidate_times lookup spacing = (s', res)"
    by (cases "optimise_departure_times_store h s contractor_configs empty_speed loaded_speed
       candidate_times lookup spacing")
  then have "preserves s s'" by (rule optimise_store_preserves)
  then have "read_config s' contractor_configs = Some v" using assms by (rule read_config_preserved)
  with run show ?thesis by simp
qed

theorem caller_configuration_unchanged_witness:
  "read_config two_routes_store 0 = Some two_routes
   \<and> read_config
         (fst (optimise_departure_times_store FENI_DUMP_POINTS two_routes_store 0 25 25
                 [''6:00'', ''7:00''] None (2 / 100))) 0 = Some two_routes
   \<and> snd (optimise_departure_times_store FENI_DUMP_POINTS two_routes_store 0 25 25
                 [''6:00'', ''7:00''] None (2 / 100))
       = Inr ([(''RIM'', [(''TF'', ''7:00'', ''6:00'')]), (''GMG'', [(''KR'', ''7:00'', ''6:00'')])],
              [(''FENI KM 0'', 0), (''FENI KM 15'', 12 / 5)],
              [(''FENI KM 0'', 0), (''FENI KM 15'', 12 / 5)])"
proof -
  have before: "read_config two_routes_store 0 = Some two_routes"
    by code_simp
  have result: "snd (optimise_departure_times_store FENI_DUMP_POINTS two_routes_store 0 25 25
                 [''6:00'', ''7:00''] None (2 / 100))
       = Inr ([(''RIM'', [(''TF'', ''7:00'', ''6:00'')]), (''GMG'', [(''KR'', ''7:00'', ''6:00'')])],
              [(''FENI KM 0'', 0), (''FENI KM 15'', 12 / 5)],
              [(''FENI KM 0'', 0), (''FENI KM 15'', 12 / 5)])"
    by code_simp
  from caller_configuration_unchanged [OF before] before result show ?thesis by blast
qed


end
